theory Spec2Isabelle
  imports Main "HOL-Library.List_Lexorder" "HOL-Library.Multiset"
begin

section \<open>Python values used by outparser.py\<close>

text \<open>
  A Python \<open>str\<close> is a sequence of Unicode code points; a code point is a natural number
  and a text is a list of them. A Python \<open>bytes\<close> object is a sequence of 8-bit values,
  which is what a HOL \<open>string\<close> is. Lists of code points are ordered lexicographically
  (HOL-Library.List_Lexorder), which is how Python compares two \<open>str\<close> values.
\<close>

type_synonym codepoint = nat
type_synonym pystr = "codepoint list"
type_synonym pybytes = string

text \<open>\<open>ustr\<close> writes a text literal: the code points of an ASCII literal.\<close>

definition ustr :: "string \<Rightarrow> pystr" where
  "ustr s = map of_char s"

text \<open>
  An exception, with the text that \<open>str(e)\<close> gives for it. \<open>Exn\<close> is an exception of
  the class \<open>Exception\<close>, which a handler \<open>except Exception\<close> catches; \<open>BaseExn\<close> is
  one outside that class (\<open>SystemExit\<close>, \<open>KeyboardInterrupt\<close>, \<open>GeneratorExit\<close>), which
  such a handler lets pass.
\<close>

datatype exn = Exn pystr | BaseExn pystr

fun exn_text :: "exn \<Rightarrow> pystr" where
  "exn_text (Exn t) = t"
| "exn_text (BaseExn t) = t"

text \<open>
  The values \<open>clean_value\<close> tells apart: \<open>None\<close>, a \<open>bytes\<close> object, a \<open>str\<close>, and an
  object of any other type. Of such an object the function uses nothing but \<open>str(value)\<close>,
  so the object is given by what that call does: it raises, or it returns a text.
\<close>

datatype pyvalue =
    PyNone
  | PyBytes pybytes
  | PyStr pystr
  | PyObject "exn + pystr"

section \<open>clean_value\<close>

text \<open>\<open>value.replace(b"\x00", b"")\<close> on bytes and \<open>value.replace("\x00", "")\<close> on text.\<close>

definition bytes_replace_nul :: "pybytes \<Rightarrow> pybytes" where
  "bytes_replace_nul b = filter (\<lambda>c. c \<noteq> CHR 0x00) b"

definition str_replace_nul :: "pystr \<Rightarrow> pystr" where
  "str_replace_nul s = filter (\<lambda>c. c \<noteq> 0) s"

text \<open>
  The codec \<open>cp1252\<close>: bytes below 0x80 and from 0xA0 on decode to the code point of the
  same number; the 32 bytes 0x80 .. 0x9F decode by the table below, in which five bytes
  (0x81, 0x8D, 0x8F, 0x90, 0x9D) are undefined. With \<open>errors="replace"\<close> an undefined byte
  decodes to U+FFFD and the call never raises.
\<close>

definition cp1252_high :: "codepoint option list" where
  "cp1252_high =
    [Some 0x20AC, None,        Some 0x201A, Some 0x0192, Some 0x201E, Some 0x2026, Some 0x2020, Some 0x2021,
     Some 0x02C6, Some 0x2030, Some 0x0160, Some 0x2039, Some 0x0152, None,        Some 0x017D, None,
     None,        Some 0x2018, Some 0x2019, Some 0x201C, Some 0x201D, Some 0x2022, Some 0x2013, Some 0x2014,
     Some 0x02DC, Some 0x2122, Some 0x0161, Some 0x203A, Some 0x0153, None,        Some 0x017E, Some 0x0178]"

definition cp1252_decode_byte :: "char \<Rightarrow> codepoint" where
  "cp1252_decode_byte b =
    (let n = (of_char b :: nat) in
     if n < 0x80 \<or> 0xA0 \<le> n then n
     else (case cp1252_high ! (n - 0x80) of Some u \<Rightarrow> u | None \<Rightarrow> 0xFFFD))"

definition decode_cp1252_replace :: "pybytes \<Rightarrow> pystr" where
  "decode_cp1252_replace b = map cp1252_decode_byte b"

text \<open>
  \<^verbatim>\<open>
  def clean_value(value):
      if value is None:
          return ""
      if isinstance(value, bytes):
          value = value.replace(b"\x00", b"").decode("cp1252", errors="replace")
      if isinstance(value, str):
          return value.replace("\x00", "")
      return str(value)
  \<close>
  A bytes value is decoded and then, being a \<open>str\<close> now, takes the text branch as well.
  The last line is reached by an object of another type only.
\<close>

fun clean_value :: "pyvalue \<Rightarrow> exn + pystr" where
  "clean_value PyNone = Inr []"
| "clean_value (PyBytes b) = Inr (str_replace_nul (decode_cp1252_replace (bytes_replace_nul b)))"
| "clean_value (PyStr s) = Inr (str_replace_nul s)"
| "clean_value (PyObject r) = r"

section \<open>safe_filename\<close>

text \<open>
  \<open>re.sub(pattern, repl, text)\<close> for a pattern that is one character class: every character
  of the class is a match of length one, and each match is replaced by \<open>repl\<close>.
\<close>

definition re_sub_class :: "(codepoint \<Rightarrow> bool) \<Rightarrow> pystr \<Rightarrow> pystr \<Rightarrow> pystr" where
  "re_sub_class cls repl s = concat (map (\<lambda>c. if cls c then repl else [c]) s)"

text \<open>The class \<^verbatim>\<open>[\x00-\x1F\x7F]\<close>: the ASCII control characters, NUL among them.\<close>

definition control_char :: "codepoint \<Rightarrow> bool" where
  "control_char c = (c \<le> 0x1F \<or> c = 0x7F)"

text \<open>
  The class of the second pattern: backslash, slash, colon, asterisk, question mark,
  double quote, less-than, greater-than and vertical bar.
\<close>

definition forbidden_chars :: "codepoint list" where
  "forbidden_chars = [0x5C, 0x2F, 0x3A, 0x2A, 0x3F, 0x22, 0x3C, 0x3E, 0x7C]"

definition forbidden_char :: "codepoint \<Rightarrow> bool" where
  "forbidden_char c = (c \<in> set forbidden_chars)"

definition unnamed_attachment :: pystr where
  "unnamed_attachment = ustr ''unnamed_attachment''"

text \<open>
  \<^verbatim>\<open>
  def safe_filename(name: str) -> str:
      name = re.sub(r"[\x00-\x1F\x7F]", "", name)
      name = re.sub(r"[\\\\/:*?\"<>|]", "_", name)
      if not name:
          return "unnamed_attachment"
      return name
  \<close>
\<close>

definition safe_filename :: "pystr \<Rightarrow> pystr" where
  "safe_filename name =
    (let name1 = re_sub_class control_char [] name;
         name2 = re_sub_class forbidden_char (ustr ''_'') name1
     in if name2 = [] then unnamed_attachment else name2)"

section \<open>strip_html_tags\<close>

text \<open>
  The pattern \<^verbatim>\<open><[^>]+>\<close> at the start of a text: a less-than sign, then one or more
  characters other than the greater-than sign, then a greater-than sign. The class cannot
  run over a greater-than sign, so the match, when there is one, ends at the first
  greater-than sign after the opening sign. \<open>match_tag\<close> returns the text after the match.
\<close>

definition lt_sign :: codepoint where
  "lt_sign = 0x3C"

definition gt_sign :: codepoint where
  "gt_sign = 0x3E"

definition match_tag :: "pystr \<Rightarrow> pystr option" where
  "match_tag s =
    (case s of
       [] \<Rightarrow> None
     | c # cs \<Rightarrow>
         if c \<noteq> lt_sign then None
         else (let inner = takeWhile (\<lambda>x. x \<noteq> gt_sign) cs;
                   rest = dropWhile (\<lambda>x. x \<noteq> gt_sign) cs
               in if inner = [] \<or> rest = [] then None else Some (tl rest)))"

text \<open>
  \<open>re.sub(r'<[^>]+>', '', text)\<close>: scanning from the left, a match is dropped and the scan
  goes on behind it; where the pattern does not match, the character is kept.
\<close>

function re_sub_tag :: "pystr \<Rightarrow> pystr" where
  "re_sub_tag [] = []"
| "re_sub_tag (c # cs) =
    (case match_tag (c # cs) of
       Some rest \<Rightarrow> re_sub_tag rest
     | None \<Rightarrow> c # re_sub_tag cs)"
  by pat_completeness auto
termination
proof (relation "measure length")
  show "wf (measure length)" by simp
next
  fix c cs rest
  assume "match_tag (c # cs) = Some rest"
  then have "rest = tl (dropWhile (\<lambda>x. x \<noteq> gt_sign) cs)"
    by (auto simp: match_tag_def Let_def split: if_splits)
  moreover have "length (dropWhile (\<lambda>x. x \<noteq> gt_sign) cs) \<le> length cs"
    by (rule length_dropWhile_le)
  ultimately show "(rest, c # cs) \<in> measure length" by simp
next
  fix c cs
  show "(cs, c # cs) \<in> measure length" by simp
qed

text \<open>
  \<^verbatim>\<open>
  def strip_html_tags(text: str) -> str:
      if not text:
          return text
      return re.sub(r'<[^>]+>', '', text)
  \<close>
  The argument is \<open>None\<close> or a text; \<open>None\<close> and the empty text are returned as they are.
  \<open>strip_html_text\<close> is the function on an argument that is a text.
\<close>

definition strip_html_text :: "pystr \<Rightarrow> pystr" where
  "strip_html_text t = (if t = [] then t else re_sub_tag t)"



section \<open>summarize_addresses\<close>

text \<open>\<open>text.split(sep)\<close> for a separator of one character: never an empty list.\<close>

fun str_split :: "codepoint \<Rightarrow> pystr \<Rightarrow> pystr list" where
  "str_split sep [] = [[]]"
| "str_split sep (c # cs) =
    (if c = sep then [] # str_split sep cs
     else (case str_split sep cs of
             [] \<Rightarrow> [[c]]
           | w # ws \<Rightarrow> (c # w) # ws))"

text \<open>The characters \<open>str.strip()\<close> removes: those for which \<open>str.isspace\<close> holds.\<close>

definition is_space :: "codepoint \<Rightarrow> bool" where
  "is_space c =
    ((0x09 \<le> c \<and> c \<le> 0x0D) \<or> (0x1C \<le> c \<and> c \<le> 0x20) \<or> c = 0x85 \<or> c = 0xA0
     \<or> c = 0x1680 \<or> (0x2000 \<le> c \<and> c \<le> 0x200A) \<or> c = 0x2028 \<or> c = 0x2029
     \<or> c = 0x202F \<or> c = 0x205F \<or> c = 0x3000)"

definition str_strip :: "pystr \<Rightarrow> pystr" where
  "str_strip s = rev (dropWhile is_space (rev (dropWhile is_space s)))"

text \<open>\<open>sep.join(parts)\<close>.\<close>

fun str_join :: "pystr \<Rightarrow> pystr list \<Rightarrow> pystr" where
  "str_join sep [] = []"
| "str_join sep [x] = x"
| "str_join sep (x # y # ys) = x @ sep @ str_join sep (y # ys)"

text \<open>The decimal text of an integer, as an f-string or \<open>str\<close> writes it.\<close>

fun str_of_nat :: "nat \<Rightarrow> pystr" where
  "str_of_nat n = (if n < 10 then [0x30 + n] else str_of_nat (n div 10) @ [0x30 + n mod 10])"

definition str_of_int :: "int \<Rightarrow> pystr" where
  "str_of_int i = (if i < 0 then 0x2D # str_of_nat (nat (- i)) else str_of_nat (nat i))"

text \<open>The slice \<open>xs[:k]\<close>: a negative \<open>k\<close> counts from the end.\<close>

definition slice_to :: "int \<Rightarrow> 'a list \<Rightarrow> 'a list" where
  "slice_to k xs = (if k < 0 then take (nat (int (length xs) + k)) xs else take (nat k) xs)"

text \<open>
  A list comprehension over calls that may raise: the elements are computed from the
  left and the first exception ends the evaluation.
\<close>

fun collect :: "('e + 'a) list \<Rightarrow> 'e + 'a list" where
  "collect [] = Inr []"
| "collect (x # xs) =
    (case x of
       Inl e \<Rightarrow> Inl e
     | Inr v \<Rightarrow> (case collect xs of Inl e \<Rightarrow> Inl e | Inr vs \<Rightarrow> Inr (v # vs)))"

definition semicolon :: codepoint where
  "semicolon = 0x3B"

text \<open>
  \<^verbatim>\<open>
  def summarize_addresses(addresses, limit):
      if not addresses:
          return ""
      addr_list = [clean_value(a.strip()) for a in addresses.split(";")]
      if limit == 0 or len(addr_list) <= limit:
          return ", ".join(addr_list)
      else:
          return ", ".join(addr_list[:limit]) + f", and {len(addr_list) - limit} others"
  \<close>
  \<open>addresses\<close> is \<open>None\<close> or a text; \<open>limit\<close> is a Python integer.
\<close>

definition summarize_addresses :: "pystr option \<Rightarrow> int \<Rightarrow> exn + pystr" where
  "summarize_addresses addresses limit =
    (case addresses of
       None \<Rightarrow> Inr []
     | Some a \<Rightarrow>
         if a = [] then Inr []
         else (case collect (map (\<lambda>x. clean_value (PyStr (str_strip x))) (str_split semicolon a)) of
                 Inl e \<Rightarrow> Inl e
               | Inr addr_list \<Rightarrow>
                   if limit = 0 \<or> int (length addr_list) \<le> limit
                   then Inr (str_join (ustr '', '') addr_list)
                   else Inr (str_join (ustr '', '') (slice_to limit addr_list)
                             @ ustr '', and ''
                             @ str_of_int (int (length addr_list) - limit)
                             @ ustr '' others'')))"

section \<open>process_msg_file\<close>

text \<open>
  What the function reads of its \<open>filepath\<close> argument: \<open>str(filepath)\<close> and
  \<open>Path(filepath).stem\<close>.
\<close>

record source_path =
  path_text :: pystr
  path_stem :: pystr

text \<open>
  The decoded message, as far as the function reads it. \<open>msg.date\<close> is \<open>None\<close>, a
  \<open>datetime\<close> (given by the text of its \<open>isoformat()\<close>) or a text. \<open>raw_messageId\<close> is
  \<open>None\<close> when the object has no attribute \<open>messageId\<close>, as \<open>getattr\<close> with a default
  tells it apart from an attribute whose value is \<open>None\<close>.
\<close>

datatype message_date = NoDate | DateTime pystr | DateText pystr

record attachment =
  att_longFilename :: "pystr option"
  att_shortFilename :: "pystr option"
  att_data :: pybytes

record raw_message =
  raw_date :: message_date
  raw_sender :: "pystr option"
  raw_to :: "pystr option"
  raw_htmlBody :: pyvalue
  raw_body :: pyvalue
  raw_attachments :: "attachment list"
  raw_messageId :: "pyvalue option"

text \<open>The dictionary the function returns, with its seven keys.\<close>

record message_record =
  Date :: pystr
  From :: pystr
  To :: pystr
  Message :: pystr
  Attachments :: "pystr list"
  MessageID :: pystr
  SourceFile :: pystr

text \<open>
  The files written by \<open>open(save_path, 'wb')\<close>, keyed by directory and file name, and for
  each path whether opening it for writing fails (a missing directory, a refused
  permission) and with which exception. Opening a path with an embedded NUL raises
  \<open>ValueError\<close> in Python whatever the file system says. A successful write replaces the
  content of the file.
\<close>

record filesystem =
  files :: "pystr \<times> pystr \<Rightarrow> pybytes option"
  open_error :: "pystr \<times> pystr \<Rightarrow> exn option"

definition write_file :: "filesystem \<Rightarrow> pystr \<times> pystr \<Rightarrow> pybytes \<Rightarrow> exn + filesystem" where
  "write_file fs path content =
    (if 0 \<in> set (fst path) \<or> 0 \<in> set (snd path) then Inl (Exn (ustr ''embedded null byte''))
     else (case open_error fs path of
             Some e \<Rightarrow> Inl e
           | None \<Rightarrow> Inr (fs\<lparr>files := (files fs)(path \<mapsto> content)\<rparr>)))"

text \<open>
  \<^verbatim>\<open>
  msg_body = clean_value(msg.htmlBody) or clean_value(msg.body) or ""
  if strip_tags and msg_body:
      msg_body = strip_html_tags(msg_body)
  \<close>
  \<open>or\<close> takes its left operand when that is not empty, and evaluates the right operand
  only otherwise.
\<close>

definition message_body :: "pyvalue \<Rightarrow> pyvalue \<Rightarrow> bool \<Rightarrow> exn + pystr" where
  "message_body html plain strip_tags =
    (case clean_value html of
       Inl e \<Rightarrow> Inl e
     | Inr h \<Rightarrow>
         (case (if h \<noteq> [] then Inr h
                else (case clean_value plain of
                        Inl e \<Rightarrow> Inl e
                      | Inr p \<Rightarrow> Inr (if p \<noteq> [] then p else []))) of
            Inl e \<Rightarrow> Inl e
          | Inr msg_body \<Rightarrow>
              Inr (if strip_tags \<and> msg_body \<noteq> [] then strip_html_text msg_body else msg_body)))"

text \<open>\<open>att.longFilename or att.shortFilename\<close>\<close>

definition chosen_filename :: "attachment \<Rightarrow> pystr option" where
  "chosen_filename att =
    (case att_longFilename att of
       None \<Rightarrow> att_shortFilename att
     | Some l \<Rightarrow> if l \<noteq> [] then Some l else att_shortFilename att)"

text \<open>\<open>f"{Path(filepath).stem}_{filename}"\<close>\<close>

definition unique_name :: "pystr \<Rightarrow> pystr \<Rightarrow> pystr" where
  "unique_name stem filename = stem @ ustr ''_'' @ filename"

text \<open>
  \<^verbatim>\<open>
  attachment_names = []
  for att in msg.attachments:
      filename = att.longFilename or att.shortFilename
      if not filename:
          continue
      filename = safe_filename(filename)
      unique_name = f"{Path(filepath).stem}_{filename}"
      save_path = Path(attachments_dir) / unique_name
      with open(save_path, 'wb') as f:
          f.write(att.data)
      attachment_names.append(clean_value(unique_name))
  \<close>
  The loop returns the names of the attachments it saved, or the exception that ended it,
  and the file system as the writes made before have left it.
\<close>

fun save_attachments ::
  "pystr \<Rightarrow> pystr \<Rightarrow> attachment list \<Rightarrow> filesystem \<Rightarrow> (exn + pystr list) \<times> filesystem" where
  "save_attachments stem attachments_dir [] fs = (Inr [], fs)"
| "save_attachments stem attachments_dir (att # atts) fs =
    (case chosen_filename att of
       None \<Rightarrow> save_attachments stem attachments_dir atts fs
     | Some filename \<Rightarrow>
         if filename = [] then save_attachments stem attachments_dir atts fs
         else (let name = unique_name stem (safe_filename filename) in
               case write_file fs (attachments_dir, name) (att_data att) of
                 Inl e \<Rightarrow> (Inl e, fs)
               | Inr fs1 \<Rightarrow>
                   (case clean_value (PyStr name) of
                      Inl e \<Rightarrow> (Inl e, fs1)
                    | Inr saved \<Rightarrow>
                        (case save_attachments stem attachments_dir atts fs1 of
                           (Inl e, fs2) \<Rightarrow> (Inl e, fs2)
                         | (Inr names, fs2) \<Rightarrow> (Inr (saved # names), fs2)))))"

text \<open>
  The body of the \<open>try\<close> block: the record, or the exception that left the block.
  \<open>extract\<close> stands for \<open>extract_msg.Message\<close>, which decodes the file or raises.
  \<^verbatim>\<open>
  msg = extract_msg.Message(str(filepath))
  msg_date = msg.date or ""
  if isinstance(msg_date, datetime):
      msg_date = msg_date.isoformat()
  msg_from = summarize_addresses(msg.sender, from_limit)
  msg_to = summarize_addresses(msg.to, to_limit)
  ... body and attachments, as above ...
  return {
      "Date": msg_date, "From": msg_from, "To": msg_to, "Message": msg_body,
      "Attachments": attachment_names,
      "MessageID": clean_value(getattr(msg, "messageId", "UNKNOWN")),
      "SourceFile": str(filepath),
  }, None
  \<close>
\<close>

definition date_text :: "message_date \<Rightarrow> pystr" where
  "date_text d = (case d of NoDate \<Rightarrow> [] | DateTime isoformat \<Rightarrow> isoformat | DateText t \<Rightarrow> t)"

definition message_id_attr :: "raw_message \<Rightarrow> pyvalue" where
  "message_id_attr msg =
    (case raw_messageId msg of None \<Rightarrow> PyStr (ustr ''UNKNOWN'') | Some v \<Rightarrow> v)"

definition try_block ::
  "(pystr \<Rightarrow> exn + raw_message) \<Rightarrow> source_path \<Rightarrow> pystr \<Rightarrow> int \<Rightarrow> int \<Rightarrow> bool \<Rightarrow> filesystem
    \<Rightarrow> (exn + message_record) \<times> filesystem" where
  "try_block extract filepath attachments_dir from_limit to_limit strip_tags fs =
    (case extract (path_text filepath) of
       Inl e \<Rightarrow> (Inl e, fs)
     | Inr msg \<Rightarrow>
    (case summarize_addresses (raw_sender msg) from_limit of
       Inl e \<Rightarrow> (Inl e, fs)
     | Inr msg_from \<Rightarrow>
    (case summarize_addresses (raw_to msg) to_limit of
       Inl e \<Rightarrow> (Inl e, fs)
     | Inr msg_to \<Rightarrow>
    (case message_body (raw_htmlBody msg) (raw_body msg) strip_tags of
       Inl e \<Rightarrow> (Inl e, fs)
     | Inr msg_body \<Rightarrow>
    (case save_attachments (path_stem filepath) attachments_dir (raw_attachments msg) fs of
       (Inl e, fs1) \<Rightarrow> (Inl e, fs1)
     | (Inr attachment_names, fs1) \<Rightarrow>
    (case clean_value (message_id_attr msg) of
       Inl e \<Rightarrow> (Inl e, fs1)
     | Inr message_id \<Rightarrow>
         (Inr \<lparr>Date = date_text (raw_date msg), From = msg_from, To = msg_to, Message = msg_body,
               Attachments = attachment_names, MessageID = message_id,
               SourceFile = path_text filepath\<rparr>, fs1)))))))"

text \<open>
  \<^verbatim>\<open>
  def process_msg_file(filepath, attachments_dir, from_limit, to_limit, strip_tags):
      try:
          ...
          return {...}, None
      except Exception as e:
          traceback.print_exc()
          return None, f"Error parsing {filepath}: {e}"
  \<close>
  The call returns a pair, each component \<open>None\<close> or a value, or it is left by an
  exception: the handler catches the exceptions of the class \<open>Exception\<close> and no others,
  so an exception outside that class leaves the function.
\<close>

definition error_message :: "source_path \<Rightarrow> exn \<Rightarrow> pystr" where
  "error_message filepath e =
    ustr ''Error parsing '' @ path_text filepath @ ustr '': '' @ exn_text e"

definition process_msg_file ::
  "(pystr \<Rightarrow> exn + raw_message) \<Rightarrow> source_path \<Rightarrow> pystr \<Rightarrow> int \<Rightarrow> int \<Rightarrow> bool \<Rightarrow> filesystem
    \<Rightarrow> (exn + message_record option \<times> pystr option) \<times> filesystem" where
  "process_msg_file extract filepath attachments_dir from_limit to_limit strip_tags fs =
    (case try_block extract filepath attachments_dir from_limit to_limit strip_tags fs of
       (Inr record, fs1) \<Rightarrow> (Inr (Some record, None), fs1)
     | (Inl (Exn t), fs1) \<Rightarrow> (Inr (None, Some (error_message filepath (Exn t))), fs1)
     | (Inl (BaseExn t), fs1) \<Rightarrow> (Inl (BaseExn t), fs1))"

section \<open>main: the result loop and the reorder pass\<close>

text \<open>
  The tasks of one batch, in the order in which they complete. A task reads its own file
  and shares with the others only the attachment directory. Every task that was submitted
  runs, whatever becomes of the others; the result of a task is the pair its call returned
  or the exception that left the call.
\<close>

fun run_tasks ::
  "(pystr \<Rightarrow> exn + raw_message) \<Rightarrow> pystr \<Rightarrow> int \<Rightarrow> int \<Rightarrow> bool \<Rightarrow> source_path list \<Rightarrow> filesystem
    \<Rightarrow> (exn + message_record option \<times> pystr option) list \<times> filesystem" where
  "run_tasks extract attachments_dir from_limit to_limit strip_tags [] fs = ([], fs)"
| "run_tasks extract attachments_dir from_limit to_limit strip_tags (f # fs_rest) fs =
    (case process_msg_file extract f attachments_dir from_limit to_limit strip_tags fs of
       (result, fs1) \<Rightarrow>
         (case run_tasks extract attachments_dir from_limit to_limit strip_tags fs_rest fs1 of
            (results, fs2) \<Rightarrow> (result # results, fs2)))"

text \<open>
  The output file is opened with \<open>encoding="utf-8"\<close>. A text with a surrogate code point
  (U+D800 to U+DFFF), such as the name that \<open>os.listdir\<close> gives for a file name that is
  not UTF-8, cannot be encoded, and \<open>out.write\<close> raises \<open>UnicodeEncodeError\<close> for a line
  with such a text. A record can be written when none of its texts holds a surrogate. The
  text of the exception is abridged.
\<close>

definition surrogate :: "codepoint \<Rightarrow> bool" where
  "surrogate c = (0xD800 \<le> c \<and> c \<le> 0xDFFF)"

definition encodable :: "pystr \<Rightarrow> bool" where
  "encodable s = (\<not> list_ex surrogate s)"

definition writable :: "message_record \<Rightarrow> bool" where
  "writable r =
    (encodable (Date r) \<and> encodable (From r) \<and> encodable (To r) \<and> encodable (Message r)
     \<and> list_all encodable (Attachments r) \<and> encodable (MessageID r) \<and> encodable (SourceFile r))"

definition unicode_encode_error :: exn where
  "unicode_encode_error = Exn (ustr ''surrogates not allowed'')"

text \<open>
  \<^verbatim>\<open>print(f"[{i}/{total}] Processing: {futures[fut]}")\<close>: the line printed for the
  \<open>i\<close>-th result, which is that of the task of the file \<open>f\<close>.
\<close>

definition progress_line :: "nat \<Rightarrow> nat \<Rightarrow> source_path \<Rightarrow> pystr" where
  "progress_line i total_count f =
    ustr ''['' @ str_of_nat i @ ustr ''/'' @ str_of_nat total_count @ ustr ''] Processing: '' @ path_text f"

text \<open>
  \<^verbatim>\<open>
  for i, fut in enumerate(concurrent.futures.as_completed(futures), 1):
      record, error = fut.result()
      print(f"[{i}/{total}] Processing: {futures[fut]}")
      if record:
          out.write(json.dumps(record, ensure_ascii=False, default=str) + "\n")
      if error:
          errors.append(error)
  \<close>
  The output file is the list of the records of its lines; \<open>errors\<close> is the list of
  messages. A record is a dictionary of seven keys, hence true; an error text is true when
  it is not empty. \<open>console\<close> tells which texts the standard output can encode: \<open>print\<close>
  raises \<open>UnicodeEncodeError\<close> for the others. \<open>fut.result()\<close> raises the exception that
  left the task. None of \<open>fut.result()\<close>, \<open>print\<close> and \<open>out.write\<close> stands in a \<open>try\<close>:
  an exception of any of them ends the loop and \<open>main\<close>. The function takes the files
  with the results of their tasks, in the order of completion, and the number \<open>i\<close> of the
  first of them; it returns the exception that ended the loop, or \<open>None\<close> when the loop
  came to its end, and the output file and the errors as they are then.
\<close>

fun result_loop ::
  "(pystr \<Rightarrow> bool) \<Rightarrow> nat \<Rightarrow> nat
    \<Rightarrow> (source_path \<times> (exn + message_record option \<times> pystr option)) list
    \<Rightarrow> message_record list \<times> pystr list
    \<Rightarrow> exn option \<times> message_record list \<times> pystr list" where
  "result_loop console total_count i [] (out, errors) = (None, out, errors)"
| "result_loop console total_count i ((f, Inl e) # rest) (out, errors) = (Some e, out, errors)"
| "result_loop console total_count i ((f, Inr (record, error)) # rest) (out, errors) =
    (if \<not> console (progress_line i total_count f) then (Some unicode_encode_error, out, errors)
     else
       (case record of
          None \<Rightarrow>
            result_loop console total_count (Suc i) rest
              (out, case error of None \<Rightarrow> errors | Some e \<Rightarrow> if e \<noteq> [] then errors @ [e] else errors)
        | Some r \<Rightarrow>
            if \<not> writable r then (Some unicode_encode_error, out, errors)
            else result_loop console total_count (Suc i) rest
              (out @ [r],
               case error of None \<Rightarrow> errors | Some e \<Rightarrow> if e \<noteq> [] then errors @ [e] else errors)))"

text \<open>
  \<open>records.sort(key=..., reverse=reverse)\<close>: Python's sort is stable, and with
  \<open>reverse=True\<close> it sorts by descending key and still keeps records of equal keys in
  their order, which it does by reversing the list before and after an ascending sort.
\<close>

definition list_sort :: "('a \<Rightarrow> 'k::linorder) \<Rightarrow> bool \<Rightarrow> 'a list \<Rightarrow> 'a list" where
  "list_sort key reverse xs = (if reverse then rev (sort_key key (rev xs)) else sort_key key xs)"

text \<open>
  \<^verbatim>\<open>
  if args.sort_date != "none":
      with open(args.output, "r", encoding="utf-8") as f:
          records = [json.loads(line) for line in f]
      reverse = args.sort_date == "desc"
      records.sort(key=lambda r: r.get("Date", ""), reverse=reverse)
      with open(args.output, "w", encoding="utf-8") as f:
          for r in records:
              f.write(json.dumps(r, ensure_ascii=False, default=str) + "\n")
  \<close>
  Every line of the file was written by the result loop from a record of
  \<open>process_msg_file\<close>, so the key \<open>Date\<close> is there and \<open>r.get("Date", "")\<close> is the text
  of the field. The function maps the content of the file before the pass to its content
  after it.
\<close>

definition reorder_pass :: "pystr \<Rightarrow> message_record list \<Rightarrow> message_record list" where
  "reorder_pass sort_date file =
    (if sort_date \<noteq> ustr ''none''
     then (let records = file;
               reverse = (sort_date = ustr ''desc'')
           in list_sort Date reverse records)
     else file)"

text \<open>
  \<^verbatim>\<open>
  parser.add_argument("-s", "--sort-date", default='asc', help="Sort by date after parsing (asc/desc/none)")
  \<close>
  The argument has a default and no \<open>choices\<close>: \<open>args.sort_date\<close> is the default when the
  option is not given, and otherwise the text that was given, whatever it is.
\<close>

definition sort_date_arg :: "pystr option \<Rightarrow> pystr" where
  "sort_date_arg given = (case given of None \<Rightarrow> ustr ''asc'' | Some s \<Rightarrow> s)"

text \<open>A record with a given date and source file and nothing else, for examples.\<close>

definition dated_record :: "pystr \<Rightarrow> pystr \<Rightarrow> message_record" where
  "dated_record d f =
    \<lparr>Date = d, From = [], To = [], Message = [], Attachments = [], MessageID = [], SourceFile = f\<rparr>"

text \<open>
  The first phase of \<open>main\<close>, after the files were scanned and the run was confirmed: the
  tasks run, and the result loop takes their results in the order of completion, counting
  from 1. \<open>paths\<close> is the list of the files in that order; its length is the \<open>total\<close>
  of the progress line.
  The function returns what the result loop returns, and the file system.
\<close>

definition main_loop ::
  "(pystr \<Rightarrow> bool) \<Rightarrow> (pystr \<Rightarrow> exn + raw_message) \<Rightarrow> pystr \<Rightarrow> int \<Rightarrow> int \<Rightarrow> bool
    \<Rightarrow> source_path list \<Rightarrow> filesystem
    \<Rightarrow> (exn option \<times> message_record list \<times> pystr list) \<times> filesystem" where
  "main_loop console extract attachments_dir from_limit to_limit strip_tags paths fs =
    (case run_tasks extract attachments_dir from_limit to_limit strip_tags paths fs of
       (results, fs1) \<Rightarrow>
         (result_loop console (length paths) 1 (zip paths results) ([], []), fs1))"






section \<open>What the attachment loop is to do\<close>

text \<open>
  The words of the specification for the attachment loop, to compare the loop with. An
  entry lacks a name when the name is \<open>None\<close> or empty; an entry is kept when it does not
  lack both names; the name chosen for it is the long name, or the short name when the
  long name is lacking. \<open>materialized\<close> lists, for the kept entries in their order, the
  name of the saved file and its payload, and \<open>write_all\<close> writes such a list into a
  directory from the left, a later write replacing an earlier one of the same name.
\<close>

definition lacks_name :: "pystr option \<Rightarrow> bool" where
  "lacks_name n = (case n of None \<Rightarrow> True | Some t \<Rightarrow> t = [])"

definition has_name :: "attachment \<Rightarrow> bool" where
  "has_name att = (\<not> (lacks_name (att_longFilename att) \<and> lacks_name (att_shortFilename att)))"

definition name_text :: "pystr option \<Rightarrow> pystr" where
  "name_text n = (case n of None \<Rightarrow> [] | Some t \<Rightarrow> t)"

definition preferred_name :: "attachment \<Rightarrow> pystr" where
  "preferred_name att =
    (if lacks_name (att_longFilename att) then name_text (att_shortFilename att)
     else name_text (att_longFilename att))"

definition materialized :: "pystr \<Rightarrow> attachment list \<Rightarrow> (pystr \<times> pybytes) list" where
  "materialized stem atts =
    map (\<lambda>att. (unique_name stem (safe_filename (preferred_name att)), att_data att))
      (filter has_name atts)"

definition write_all :: "pystr \<Rightarrow> (pystr \<times> pybytes) list \<Rightarrow> filesystem \<Rightarrow> filesystem" where
  "write_all dir pairs fs =
    foldl (\<lambda>fs1 (n, c). fs1\<lparr>files := (files fs1)((dir, n) \<mapsto> c)\<rparr>) fs pairs"

section \<open>Inputs for examples\<close>

text \<open>
  A decoder that succeeds with a given message for every path; a message with given HTML
  body, plain body and \<open>messageId\<close> attribute, and with no date, no addresses and no
  attachments; a file system with no files, on which every open succeeds; and a source
  path.
\<close>

definition decodes_to :: "raw_message \<Rightarrow> pystr \<Rightarrow> exn + raw_message" where
  "decodes_to msg path = Inr msg"

definition bare_message :: "pyvalue \<Rightarrow> pyvalue \<Rightarrow> pyvalue option \<Rightarrow> raw_message" where
  "bare_message html plain message_id =
    \<lparr>raw_date = NoDate, raw_sender = None, raw_to = None, raw_htmlBody = html, raw_body = plain,
     raw_attachments = [], raw_messageId = message_id\<rparr>"

definition empty_filesystem :: filesystem where
  "empty_filesystem = \<lparr>files = (\<lambda>p. None), open_error = (\<lambda>p. None)\<rparr>"

definition a_msg :: source_path where
  "a_msg = \<lparr>path_text = ustr ''mail/a.msg'', path_stem = ustr ''a''\<rparr>"


definition b_msg :: source_path where
  "b_msg = \<lparr>path_text = ustr ''mail/b.msg'', path_stem = ustr ''b''\<rparr>"

definition c_msg :: source_path where
  "c_msg = \<lparr>path_text = ustr ''mail/c.msg'', path_stem = ustr ''c''\<rparr>"

definition s_msg :: source_path where
  "s_msg = \<lparr>path_text = ustr ''mail/'' @ [0xDCE9] @ ustr ''.msg'', path_stem = [0xDCE9]\<rparr>"

section \<open>Facts about clean_value\<close>

lemma str_replace_nul_free: "0 \<notin> set (str_replace_nul s)"
  by (simp add: str_replace_nul_def)

lemma str_replace_nul_id: "0 \<notin> set s \<Longrightarrow> str_replace_nul s = s"
  unfolding str_replace_nul_def by (induction s) auto

lemma cp1252_high_nonzero: "x \<in> set cp1252_high \<Longrightarrow> x \<noteq> Some 0"
  by (auto simp: cp1252_high_def)

lemma cp1252_high_length: "length cp1252_high = 32"
  by (simp add: cp1252_high_def)

lemma cp1252_decode_byte_zero: "cp1252_decode_byte b = 0 \<longleftrightarrow> b = CHR 0x00"
proof
  assume z: "cp1252_decode_byte b = 0"
  let ?n = "of_char b :: nat"
  show "b = CHR 0x00"
  proof (cases "?n < 0x80 \<or> 0xA0 \<le> ?n")
    case True
    with z have "?n = 0" by (simp add: cp1252_decode_byte_def Let_def)
    then have "?n = of_char (CHR 0x00)" by simp
    then show ?thesis by (simp only: of_char_eq_iff)
  next
    case False
    then have "?n - 0x80 < length cp1252_high"
      unfolding cp1252_high_length by linarith
    then have "cp1252_high ! (?n - 0x80) \<in> set cp1252_high" by (rule nth_mem)
    then have "cp1252_high ! (?n - 0x80) \<noteq> Some 0" by (rule cp1252_high_nonzero)
    with z False show ?thesis
      by (auto simp: cp1252_decode_byte_def Let_def split: option.splits)
  qed
next
  assume "b = CHR 0x00"
  then show "cp1252_decode_byte b = 0" by (simp add: cp1252_decode_byte_def)
qed

lemma decode_nul_free: "0 \<notin> set (decode_cp1252_replace (bytes_replace_nul b))"
  by (auto simp: decode_cp1252_replace_def bytes_replace_nul_def cp1252_decode_byte_zero)

lemma clean_value_text: "clean_value (PyStr s) = Inr (str_replace_nul s)"
  by simp

lemma clean_value_bytes:
  "clean_value (PyBytes b) = Inr (decode_cp1252_replace (bytes_replace_nul b))"
  by (simp add: str_replace_nul_id decode_nul_free)

lemma decode_cp1252_replace_example:
  "decode_cp1252_replace [CHR 0x41, CHR 0x80, CHR 0x81, CHR 0xE9] = [0x41, 0x20AC, 0xFFFD, 0xE9]"
  by (simp add: decode_cp1252_replace_def cp1252_decode_byte_def cp1252_high_def)

text \<open>
  Claim C4, as the code has it. For \<open>None\<close> the result is the empty text; for bytes it is
  the cp1252 decoding, with U+FFFD for an undefined byte, of the bytes without their NUL
  bytes; for a text it is the text without its NUL characters. In these three cases the
  call returns and its result holds no NUL character. For an object of any other type the
  call is \<open>str(value)\<close> and nothing more: it returns what \<open>str\<close> returns, a NUL
  character included, and raises what \<open>str\<close> raises.
\<close>

theorem clean_value_total_nul_free_known_types:
  "clean_value PyNone = Inr []
   \<and> clean_value (PyBytes b) = Inr (decode_cp1252_replace (bytes_replace_nul b))
   \<and> 0 \<notin> set (decode_cp1252_replace (bytes_replace_nul b))
   \<and> clean_value (PyStr s) = Inr (str_replace_nul s)
   \<and> 0 \<notin> set (str_replace_nul s)
   \<and> clean_value (PyObject r) = r"
proof -
  have bytes_case: "clean_value (PyBytes b) = Inr (decode_cp1252_replace (bytes_replace_nul b))"
    by (rule clean_value_bytes)
  have str_case: "clean_value (PyStr s) = Inr (str_replace_nul s)"
    by (rule clean_value_text)
  show ?thesis
    using bytes_case str_case decode_nul_free [of b] str_replace_nul_free [of s] by simp
qed

text \<open>
  Claim C4 as stated fails for a value that is neither \<open>None\<close>, bytes nor text and whose
  \<open>str\<close> holds a NUL character, such as \<open>pathlib.PurePath("a\x00b")\<close> or
  \<open>ValueError("a\x00b")\<close>: the result is the text \<open>a\x00b\<close>.
\<close>

theorem clean_value_object_keeps_nul:
  "clean_value (PyObject (Inr [0x61, 0, 0x62])) = Inr [0x61, 0, 0x62]
   \<and> 0 \<in> set [0x61, 0, 0x62 :: codepoint]"
  by simp

section \<open>Facts about safe_filename\<close>

lemma re_sub_class_delete: "re_sub_class cls [] s = filter (\<lambda>c. \<not> cls c) s"
  by (induction s) (simp_all add: re_sub_class_def)

lemma re_sub_class_single: "re_sub_class cls [r] s = map (\<lambda>c. if cls c then r else c) s"
  by (induction s) (simp_all add: re_sub_class_def)

lemma underscore_text: "ustr ''_'' = [0x5F]"
  by (simp add: ustr_def)

lemma underscore_allowed: "\<not> control_char 0x5F \<and> \<not> forbidden_char 0x5F"
  by (simp add: control_char_def forbidden_char_def forbidden_chars_def)

lemma unnamed_attachment_chars:
  "c \<in> set unnamed_attachment \<Longrightarrow> \<not> control_char c \<and> \<not> forbidden_char c"
  by (auto simp: unnamed_attachment_def ustr_def control_char_def forbidden_char_def forbidden_chars_def)

lemma safe_filename_eq:
  "safe_filename name =
    (let kept = filter (\<lambda>c. \<not> control_char c) name;
         replaced = map (\<lambda>c. if forbidden_char c then 0x5F else c) kept
     in if replaced = [] then unnamed_attachment else replaced)"
  by (simp add: safe_filename_def re_sub_class_delete re_sub_class_single underscore_text Let_def)

lemma safe_filename_nonempty: "safe_filename name \<noteq> []"
  by (simp add: safe_filename_eq Let_def unnamed_attachment_def ustr_def)

lemma safe_filename_chars:
  "c \<in> set (safe_filename name) \<Longrightarrow> \<not> control_char c \<and> \<not> forbidden_char c"
  using underscore_allowed unnamed_attachment_chars [of c]
  by (auto simp: safe_filename_eq Let_def split: if_splits)

lemma safe_filename_all_control:
  "list_all control_char name \<Longrightarrow> safe_filename name = unnamed_attachment"
proof -
  assume "list_all control_char name"
  then have "filter (\<lambda>c. \<not> control_char c) name = []"
    by (induction name) auto
  then show ?thesis by (simp add: safe_filename_eq)
qed

text \<open>
  Claim C5. \<open>safe_filename\<close> drops the control characters (code points 0 to 0x1F and
  0x7F, NUL among them), then puts an underscore for each of the characters
  \<^verbatim>\<open>\ / : * ? " < > |\<close>, and gives the placeholder \<open>unnamed_attachment\<close> when nothing is
  left. It maps \<open>a/b:c\<close> to \<open>a_b_c\<close>, it maps a name made of control characters only to
  the placeholder, its result is never empty, and no control or forbidden character is
  left in the result.
\<close>

theorem safe_filename_spec:
  "safe_filename name =
     (let kept = filter (\<lambda>c. \<not> control_char c) name;
          replaced = map (\<lambda>c. if forbidden_char c then 0x5F else c) kept
      in if replaced = [] then unnamed_attachment else replaced)
   \<and> safe_filename (ustr ''a/b:c'') = ustr ''a_b_c''
   \<and> (list_all control_char name \<longrightarrow> safe_filename name = unnamed_attachment)
   \<and> safe_filename name \<noteq> []
   \<and> (\<forall>c \<in> set (safe_filename name). \<not> control_char c \<and> \<not> forbidden_char c)"
proof -
  have ex: "safe_filename (ustr ''a/b:c'') = ustr ''a_b_c''"
    by (simp add: safe_filename_eq ustr_def control_char_def forbidden_char_def forbidden_chars_def)
  show ?thesis
    using safe_filename_eq [of name] ex safe_filename_all_control [of name]
      safe_filename_nonempty [of name] safe_filename_chars [of _ name]
    by blast
qed

text \<open>
  The theorem at a name of three control characters, at the name \<open>a\<close>, NUL, colon, \<open>b\<close>
  and at a question mark.
\<close>

theorem safe_filename_spec_witness:
  "list_all control_char [0, 0x1F, 0x7F]
   \<and> safe_filename [0, 0x1F, 0x7F] = unnamed_attachment
   \<and> safe_filename [0x61, 0, 0x3A, 0x62] = [0x61, 0x5F, 0x62]
   \<and> set (safe_filename [0x3F]) = {0x5F}"
  using safe_filename_spec [of "[0, 0x1F, 0x7F]"] safe_filename_spec [of "[0x61, 0, 0x3A, 0x62]"]
    safe_filename_spec [of "[0x3F]"]
  by (simp add: control_char_def forbidden_char_def forbidden_chars_def Let_def)

section \<open>Facts about strip_html_tags\<close>
















section \<open>Facts about summarize_addresses\<close>

declare str_of_nat.simps [simp del]

lemma collect_map_Inr: "collect (map (\<lambda>x. Inr (f x)) xs) = Inr (map f xs)"
  by (induction xs) simp_all

lemma str_split_nonempty: "str_split sep s \<noteq> []"
  by (induction s) (auto split: list.splits)

lemma str_join_Cons: "ws \<noteq> [] \<Longrightarrow> str_join sep (w # ws) = w @ sep @ str_join sep ws"
  by (cases ws) simp_all

lemma str_join_str_split: "str_join [sep] (str_split sep s) = s"
proof (induction s)
  case Nil
  then show ?case by simp
next
  case (Cons c cs)
  show ?case
  proof (cases "c = sep")
    case True
    with Cons show ?thesis by (simp add: str_join_Cons str_split_nonempty)
  next
    case False
    obtain w ws where ws: "str_split sep cs = w # ws"
      using str_split_nonempty [of sep cs] by (cases "str_split sep cs") auto
    with Cons have "str_join [sep] (w # ws) = cs" by simp
    then have "str_join [sep] ((c # w) # ws) = c # cs" by (cases ws) auto
    with False ws show ?thesis by simp
  qed
qed

lemma str_split_no_sep: "f \<in> set (str_split sep s) \<Longrightarrow> sep \<notin> set f"
proof (induction s arbitrary: f)
  case Nil
  then show ?case by simp
next
  case (Cons c cs)
  show ?case
  proof (cases "c = sep")
    case True
    with Cons show ?thesis by auto
  next
    case False
    obtain w ws where ws: "str_split sep cs = w # ws"
      using str_split_nonempty [of sep cs] by (cases "str_split sep cs") auto
    with Cons.prems False have "f = c # w \<or> f \<in> set ws" by simp
    moreover have "sep \<notin> set w" using Cons.IH [of w] ws by simp
    moreover have "f \<in> set ws \<Longrightarrow> sep \<notin> set f" using Cons.IH [of f] ws by simp
    ultimately show ?thesis using False by auto
  qed
qed

lemma length_str_split: "length (str_split sep s) = Suc (count_list s sep)"
proof (induction s)
  case Nil
  then show ?case by simp
next
  case (Cons c cs)
  obtain w ws where ws: "str_split sep cs = w # ws"
    using str_split_nonempty [of sep cs] by (cases "str_split sep cs") auto
  with Cons show ?case by auto
qed

lemma str_strip_ends:
  "str_strip s = [] \<or> (\<not> is_space (hd (str_strip s)) \<and> \<not> is_space (last (str_strip s)))"
proof (cases "str_strip s = []")
  case True
  then show ?thesis by simp
next
  case False
  define a where "a = dropWhile is_space s"
  define b where "b = dropWhile is_space (rev a)"
  have strip: "str_strip s = rev b" by (simp add: str_strip_def a_def b_def)
  with False have b: "b \<noteq> []" by simp
  then have hb: "\<not> is_space (hd b)" unfolding b_def by (rule hd_dropWhile)
  have a: "a \<noteq> []"
  proof
    assume "a = []"
    then have "b = []" by (simp add: b_def)
    with b show False by simp
  qed
  then have ha: "\<not> is_space (hd a)" unfolding a_def by (rule hd_dropWhile)
  have "takeWhile is_space (rev a) @ b = rev a" unfolding b_def by (rule takeWhile_dropWhile_id)
  then have "last (takeWhile is_space (rev a) @ b) = last (rev a)" by (rule arg_cong)
  moreover from b have "last (takeWhile is_space (rev a) @ b) = last b" by (rule last_appendR)
  ultimately have "last b = last (rev a)" by simp
  with a have lb: "last b = hd a" by (simp add: last_rev)
  from b have "hd (rev b) = last b" by (simp add: hd_rev)
  moreover from b have "last (rev b) = hd b" by (simp add: last_rev)
  ultimately show ?thesis using strip ha hb lb by simp
qed

lemma str_strip_decomp:
  "\<exists>pre post. s = pre @ str_strip s @ post \<and> list_all is_space pre \<and> list_all is_space post"
proof -
  let ?a = "dropWhile is_space s"
  let ?pre = "takeWhile is_space s"
  let ?post = "rev (takeWhile is_space (rev ?a))"
  have "takeWhile is_space (rev ?a) @ dropWhile is_space (rev ?a) = rev ?a"
    by (rule takeWhile_dropWhile_id)
  then have "rev (takeWhile is_space (rev ?a) @ dropWhile is_space (rev ?a)) = rev (rev ?a)"
    by (rule arg_cong)
  then have "?a = str_strip s @ ?post"
    by (simp only: rev_append rev_rev_ident str_strip_def)
  moreover have "s = ?pre @ ?a" by simp
  ultimately have "s = ?pre @ str_strip s @ ?post" by simp
  moreover have "list_all is_space ?pre"
    by (simp add: list_all_iff) (meson set_takeWhileD)
  moreover have "list_all is_space ?post"
    by (simp add: list_all_iff) (meson set_takeWhileD)
  ultimately show ?thesis by blast
qed

lemma slice_to_nonneg: "0 \<le> k \<Longrightarrow> slice_to k xs = take (nat k) xs"
  by (simp add: slice_to_def)

lemma str_of_int_nonneg: "0 \<le> i \<Longrightarrow> str_of_int i = str_of_nat (nat i)"
  by (simp add: str_of_int_def)

text \<open>The decimal text read back as a number.\<close>

lemma str_of_nat_value:
  "foldl (\<lambda>acc d. 10 * acc + (d - 0x30)) 0 (str_of_nat n) = n
   \<and> list_all (\<lambda>d. 0x30 \<le> d \<and> d \<le> 0x39) (str_of_nat n)"
proof (induction n rule: str_of_nat.induct)
  case (1 n)
  show ?case
  proof (cases "n < 10")
    case True
    then show ?thesis by (simp add: str_of_nat.simps [of n])
  next
    case False
    with 1 have ih: "foldl (\<lambda>acc d. 10 * acc + (d - 0x30)) 0 (str_of_nat (n div 10)) = n div 10"
      and dg: "list_all (\<lambda>d. 0x30 \<le> d \<and> d \<le> 0x39) (str_of_nat (n div 10))" by simp_all
    have "n mod 10 < 10" by simp
    then have "48 + n mod 10 \<le> 57" by linarith
    with False ih dg show ?thesis by (simp add: str_of_nat.simps [of n])
  qed
qed

lemma summarize_addresses_entries:
  "a \<noteq> [] \<Longrightarrow>
   summarize_addresses (Some a) limit =
     (let addr_list = map (\<lambda>x. str_replace_nul (str_strip x)) (str_split semicolon a) in
      if limit = 0 \<or> int (length addr_list) \<le> limit
      then Inr (str_join (ustr '', '') addr_list)
      else Inr (str_join (ustr '', '') (slice_to limit addr_list)
                @ ustr '', and ''
                @ str_of_int (int (length addr_list) - limit)
                @ ustr '' others''))"
  by (simp add: summarize_addresses_def collect_map_Inr Let_def)

lemma str_of_nat_canonical:
  "str_of_nat n \<noteq> [] \<and> (hd (str_of_nat n) = 0x30 \<longrightarrow> n = 0)"
proof (induction n rule: str_of_nat.induct)
  case (1 n)
  show ?case
  proof (cases "n < 10")
    case True
    then show ?thesis by (simp add: str_of_nat.simps [of n])
  next
    case False
    with 1 have ne: "str_of_nat (n div 10) \<noteq> []"
      and z: "hd (str_of_nat (n div 10)) = 0x30 \<longrightarrow> n div 10 = 0" by simp_all
    from False have "n div 10 \<noteq> 0" by simp
    with z have "hd (str_of_nat (n div 10)) \<noteq> 0x30" by blast
    with False ne show ?thesis by (simp add: str_of_nat.simps [of n])
  qed
qed

lemma str_of_nat_leading_zero:
  "hd (str_of_nat n) = 0x30 \<longrightarrow> n = 0 \<and> str_of_nat n = [0x30]"
proof
  assume "hd (str_of_nat n) = 0x30"
  with str_of_nat_canonical [of n] have "n = 0" by blast
  then show "n = 0 \<and> str_of_nat n = [0x30]" by (simp add: str_of_nat.simps [of 0])
qed

lemma str_of_nat_eleven: "str_of_nat 11 = [0x31, 0x31]"
  by (simp add: str_of_nat.simps [of 11] str_of_nat.simps [of 1] str_of_nat.simps [of "Suc 0"])

lemma summarize_literals:
  "semicolon = 0x3B" "ustr '', '' = [0x2C, 0x20]"
  "ustr '', and '' = [0x2C, 0x20, 0x61, 0x6E, 0x64, 0x20]"
  "ustr '' others'' = [0x20, 0x6F, 0x74, 0x68, 0x65, 0x72, 0x73]"
  by (simp_all add: semicolon_def ustr_def)

text \<open>
  Claim C2. For a limit that is not negative: \<open>None\<close> and the empty text give the empty
  text. Otherwise the entries are the fields between the semicolons (U+003B), each stripped
  of the white space at its ends and then of its NUL characters. With limit 0, or with no
  more entries than the limit, the result is all entries joined by a comma and a space.
  With more entries than a limit of at least 1, it is the first \<open>limit\<close> entries joined in
  the same way, then \<open>, and N others\<close> with N the number of entries left out, in decimal.
  The other conjuncts say what splitting, stripping, joining and the decimal text are: the
  fields joined by semicolons are the input, hold no semicolon, and are one more than the
  semicolons; a stripped field is the field without a run of white space at each end;
  joining puts the separator between neighbours; the decimal text is made of the digits 0
  to 9, reads back as N and starts with 0 only when it is \<open>0\<close> itself, so that 11 is
  written \<open>11\<close>.
\<close>

theorem summarize_addresses_spec:
  assumes "0 \<le> limit"
  shows
  "summarize_addresses None limit = Inr []
   \<and> summarize_addresses (Some []) limit = Inr []
   \<and> (let entries = map (\<lambda>x. filter (\<lambda>c. c \<noteq> 0) (str_strip x)) (str_split 0x3B a) in
        (a \<noteq> [] \<and> (limit = 0 \<or> int (length entries) \<le> limit) \<longrightarrow>
           summarize_addresses (Some a) limit = Inr (str_join [0x2C, 0x20] entries))
      \<and> (a \<noteq> [] \<and> 1 \<le> limit \<and> limit < int (length entries) \<longrightarrow>
           summarize_addresses (Some a) limit =
             Inr (str_join [0x2C, 0x20] (take (nat limit) entries)
                  @ [0x2C, 0x20, 0x61, 0x6E, 0x64, 0x20]
                  @ str_of_nat (length entries - nat limit)
                  @ [0x20, 0x6F, 0x74, 0x68, 0x65, 0x72, 0x73])
           \<and> length (take (nat limit) entries) = nat limit))
   \<and> (str_join [0x3B] (str_split 0x3B a) = a
        \<and> (\<forall>f \<in> set (str_split 0x3B a). 0x3B \<notin> set f)
        \<and> length (str_split 0x3B a) = Suc (count_list a 0x3B))
   \<and> (\<exists>pre post. x = pre @ str_strip x @ post \<and> list_all is_space pre \<and> list_all is_space post)
   \<and> (str_strip x = [] \<or> (\<not> is_space (hd (str_strip x)) \<and> \<not> is_space (last (str_strip x))))
   \<and> (str_join sep [] = [] \<and> str_join sep [y] = y
        \<and> str_join sep (y # z # zs) = y @ sep @ str_join sep (z # zs))
   \<and> (foldl (\<lambda>acc d. 10 * acc + (d - 0x30)) 0 (str_of_nat n) = n
        \<and> list_all (\<lambda>d. 0x30 \<le> d \<and> d \<le> 0x39) (str_of_nat n)
        \<and> str_of_nat n \<noteq> []
        \<and> (hd (str_of_nat n) = 0x30 \<longrightarrow> n = 0 \<and> str_of_nat n = [0x30])
        \<and> str_of_nat 11 = [0x31, 0x31])"
proof -
  define entries where "entries = map (\<lambda>x. str_replace_nul (str_strip x)) (str_split semicolon a)"
  have entries_eq: "map (\<lambda>x. filter (\<lambda>c. c \<noteq> 0) (str_strip x)) (str_split 0x3B a) = entries"
    unfolding entries_def summarize_literals(1) str_replace_nul_def ..
  have eq: "a \<noteq> [] \<Longrightarrow> summarize_addresses (Some a) limit =
      (if limit = 0 \<or> int (length entries) \<le> limit
       then Inr (str_join (ustr '', '') entries)
       else Inr (str_join (ustr '', '') (slice_to limit entries)
                 @ ustr '', and ''
                 @ str_of_int (int (length entries) - limit)
                 @ ustr '' others''))"
    unfolding entries_def by (rule summarize_addresses_entries [unfolded Let_def])
  have none: "summarize_addresses None limit = Inr []"
    by (simp add: summarize_addresses_def)
  have empty: "summarize_addresses (Some []) limit = Inr []"
    by (simp add: summarize_addresses_def)
  have all: "a \<noteq> [] \<and> (limit = 0 \<or> int (length entries) \<le> limit) \<longrightarrow>
      summarize_addresses (Some a) limit = Inr (str_join [0x2C, 0x20] entries)"
    using eq unfolding summarize_literals by auto
  have some: "a \<noteq> [] \<and> 1 \<le> limit \<and> limit < int (length entries) \<longrightarrow>
      summarize_addresses (Some a) limit =
        Inr (str_join [0x2C, 0x20] (take (nat limit) entries)
             @ [0x2C, 0x20, 0x61, 0x6E, 0x64, 0x20]
             @ str_of_nat (length entries - nat limit)
             @ [0x20, 0x6F, 0x74, 0x68, 0x65, 0x72, 0x73])
      \<and> length (take (nat limit) entries) = nat limit"
  proof
    assume h: "a \<noteq> [] \<and> 1 \<le> limit \<and> limit < int (length entries)"
    then have "int (length entries) - limit = int (length entries - nat limit)" by linarith
    then have n: "str_of_int (int (length entries) - limit) = str_of_nat (length entries - nat limit)"
      by (simp only: str_of_int_nonneg of_nat_0_le_iff nat_int)
    from h have s: "slice_to limit entries = take (nat limit) entries"
      by (simp add: slice_to_nonneg)
    from h have c: "\<not> (limit = 0 \<or> int (length entries) \<le> limit)" by linarith
    from h have "nat limit \<le> length entries" by linarith
    then have l: "length (take (nat limit) entries) = nat limit" by (simp add: min_def)
    from h have ane: "a \<noteq> []" by (rule conjunct1)
    have "summarize_addresses (Some a) limit =
        Inr (str_join (ustr '', '') (slice_to limit entries)
             @ ustr '', and '' @ str_of_int (int (length entries) - limit) @ ustr '' others'')"
      unfolding eq [OF ane] using c by (rule if_not_P)
    then have r: "summarize_addresses (Some a) limit =
        Inr (str_join [0x2C, 0x20] (take (nat limit) entries)
             @ [0x2C, 0x20, 0x61, 0x6E, 0x64, 0x20]
             @ str_of_nat (length entries - nat limit)
             @ [0x20, 0x6F, 0x74, 0x68, 0x65, 0x72, 0x73])"
      unfolding n s summarize_literals .
    from r l show "summarize_addresses (Some a) limit =
        Inr (str_join [0x2C, 0x20] (take (nat limit) entries)
             @ [0x2C, 0x20, 0x61, 0x6E, 0x64, 0x20]
             @ str_of_nat (length entries - nat limit)
             @ [0x20, 0x6F, 0x74, 0x68, 0x65, 0x72, 0x73])
      \<and> length (take (nat limit) entries) = nat limit"
      by (rule conjI)
  qed
  have split: "str_join [0x3B] (str_split 0x3B a) = a
      \<and> (\<forall>f \<in> set (str_split 0x3B a). 0x3B \<notin> set f)
      \<and> length (str_split 0x3B a) = Suc (count_list a 0x3B)"
    by (simp add: str_join_str_split str_split_no_sep length_str_split)
  have join: "str_join sep [] = [] \<and> str_join sep [y] = y
      \<and> str_join sep (y # z # zs) = y @ sep @ str_join sep (z # zs)"
    by simp
  have decimal: "foldl (\<lambda>acc d. 10 * acc + (d - 0x30)) 0 (str_of_nat n) = n
      \<and> list_all (\<lambda>d. 0x30 \<le> d \<and> d \<le> 0x39) (str_of_nat n)
      \<and> str_of_nat n \<noteq> []
      \<and> (hd (str_of_nat n) = 0x30 \<longrightarrow> n = 0 \<and> str_of_nat n = [0x30])
      \<and> str_of_nat 11 = [0x31, 0x31]"
    using str_of_nat_value [of n] str_of_nat_canonical [of n] str_of_nat_leading_zero [of n]
      str_of_nat_eleven
    by blast
  have body: "(a \<noteq> [] \<and> (limit = 0 \<or> int (length entries) \<le> limit) \<longrightarrow>
           summarize_addresses (Some a) limit = Inr (str_join [0x2C, 0x20] entries))
      \<and> (a \<noteq> [] \<and> 1 \<le> limit \<and> limit < int (length entries) \<longrightarrow>
           summarize_addresses (Some a) limit =
             Inr (str_join [0x2C, 0x20] (take (nat limit) entries)
                  @ [0x2C, 0x20, 0x61, 0x6E, 0x64, 0x20]
                  @ str_of_nat (length entries - nat limit)
                  @ [0x20, 0x6F, 0x74, 0x68, 0x65, 0x72, 0x73])
           \<and> length (take (nat limit) entries) = nat limit)"
    using all some by (rule conjI)
  show ?thesis
    unfolding Let_def entries_eq
    apply (rule conjI [OF none])
    apply (rule conjI [OF empty])
    apply (rule conjI [OF body])
    apply (rule conjI [OF split])
    apply (rule conjI [OF str_strip_decomp])
    apply (rule conjI [OF str_strip_ends])
    apply (rule conjI [OF join])
    apply (rule decimal)
    done
qed

text \<open>
  The theorem at four addresses with limit 2, at two addresses with limit 0, and at twelve
  addresses with limit 1, where eleven are left out.
\<close>

theorem summarize_addresses_spec_witness:
  "(0::int) \<le> 2
   \<and> summarize_addresses (Some (ustr ''a@x.org; b@y.org ;c;d'')) 2
       = Inr (ustr ''a@x.org, b@y.org, and 2 others'')
   \<and> (0::int) \<le> 0
   \<and> summarize_addresses (Some (ustr ''a@x.org; b@y.org'')) 0 = Inr (ustr ''a@x.org, b@y.org'')
   \<and> (0::int) \<le> 1
   \<and> summarize_addresses (Some (ustr ''a;b;c;d;e;f;g;h;i;j;k;l'')) 1 = Inr (ustr ''a, and 11 others'')"
proof -
  have e1: "map (\<lambda>x. filter (\<lambda>c. c \<noteq> 0) (str_strip x)) (str_split 0x3B (ustr ''a@x.org; b@y.org ;c;d''))
      = [ustr ''a@x.org'', ustr ''b@y.org'', ustr ''c'', ustr ''d'']"
    by (simp add: ustr_def str_strip_def is_space_def)
  have e2: "map (\<lambda>x. filter (\<lambda>c. c \<noteq> 0) (str_strip x)) (str_split 0x3B (ustr ''a@x.org; b@y.org''))
      = [ustr ''a@x.org'', ustr ''b@y.org'']"
    by (simp add: ustr_def str_strip_def is_space_def)
  have e3: "map (\<lambda>x. filter (\<lambda>c. c \<noteq> 0) (str_strip x)) (str_split 0x3B (ustr ''a;b;c;d;e;f;g;h;i;j;k;l''))
      = [ustr ''a'', ustr ''b'', ustr ''c'', ustr ''d'', ustr ''e'', ustr ''f'', ustr ''g'',
         ustr ''h'', ustr ''i'', ustr ''j'', ustr ''k'', ustr ''l'']"
    by (simp add: ustr_def str_strip_def is_space_def)
  have n2: "str_of_nat (Suc (Suc 0)) = ustr ''2''"
    by (simp add: str_of_nat.simps ustr_def)
  have n11: "str_of_nat 11 = ustr ''11''"
    by (simp add: str_of_nat_eleven ustr_def)
  have l3: "length [ustr ''a'', ustr ''b'', ustr ''c'', ustr ''d'', ustr ''e'', ustr ''f'', ustr ''g'',
         ustr ''h'', ustr ''i'', ustr ''j'', ustr ''k'', ustr ''l''] - nat 1 = 11"
    by simp
  have a1: "ustr ''a@x.org; b@y.org ;c;d'' \<noteq> []" and a2: "ustr ''a@x.org; b@y.org'' \<noteq> []"
    and a3: "ustr ''a;b;c;d;e;f;g;h;i;j;k;l'' \<noteq> []"
    by (simp_all add: ustr_def)
  have "summarize_addresses (Some (ustr ''a@x.org; b@y.org ;c;d'')) 2
       = Inr (ustr ''a@x.org, b@y.org, and 2 others'')"
    using summarize_addresses_spec [where limit = 2 and a = "ustr ''a@x.org; b@y.org ;c;d''"
        and x = "[]" and n = 0 and sep = "[]" and y = "[]" and z = "[]" and zs = "[]"] a1
    unfolding Let_def e1 by (simp add: n2) (simp add: ustr_def)
  moreover have "summarize_addresses (Some (ustr ''a@x.org; b@y.org'')) 0 = Inr (ustr ''a@x.org, b@y.org'')"
    using summarize_addresses_spec [where limit = 0 and a = "ustr ''a@x.org; b@y.org''"
        and x = "[]" and n = 0 and sep = "[]" and y = "[]" and z = "[]" and zs = "[]"] a2
    unfolding Let_def e2 by simp (simp add: ustr_def)
  moreover have "summarize_addresses (Some (ustr ''a;b;c;d;e;f;g;h;i;j;k;l'')) 1 = Inr (ustr ''a, and 11 others'')"
    using summarize_addresses_spec [where limit = 1 and a = "ustr ''a;b;c;d;e;f;g;h;i;j;k;l''"
        and x = "[]" and n = 0 and sep = "[]" and y = "[]" and z = "[]" and zs = "[]"] a3
    unfolding Let_def e3 l3 by (simp add: n11) (simp add: ustr_def)
  ultimately show ?thesis by simp
qed

section \<open>Facts about the reorder pass\<close>

lemma mset_list_sort: "mset (list_sort key reverse xs) = mset xs"
  by (simp add: list_sort_def)

lemma list_sort_stable:
  "filter (\<lambda>r. key r = k) (list_sort key reverse xs) = filter (\<lambda>r. key r = k) xs"
proof (cases reverse)
  case False
  then show ?thesis by (simp add: list_sort_def sort_key_stable)
next
  case True
  have "filter (\<lambda>r. key r = k) (rev (sort_key key (rev xs)))
      = rev (filter (\<lambda>r. key r = k) (sort_key key (rev xs)))"
    by (simp only: rev_filter)
  also have "\<dots> = rev (filter (\<lambda>r. key r = k) (rev xs))"
    by (simp only: sort_key_stable)
  also have "\<dots> = filter (\<lambda>r. key r = k) xs"
    by (simp only: rev_filter rev_rev_ident)
  finally show ?thesis using True by (simp add: list_sort_def)
qed

lemma list_sort_ascending: "sorted (map key (list_sort key False xs))"
  by (simp add: list_sort_def)

lemma list_sort_descending: "sorted (rev (map key (list_sort key True xs)))"
  by (simp add: list_sort_def rev_map)

lemma list_sort_sorted_id: "sorted (map key xs) \<Longrightarrow> list_sort key False xs = xs"
  by (simp add: list_sort_def sort_key_id_if_sorted)

lemma list_sort_descending_id: "sorted (rev (map key xs)) \<Longrightarrow> list_sort key True xs = xs"
proof -
  assume "sorted (rev (map key xs))"
  then have "sorted (map key (rev xs))" by (simp add: rev_map)
  then have "sort_key key (rev xs) = rev xs" by (rule sort_key_id_if_sorted)
  then show ?thesis by (simp add: list_sort_def)
qed

lemma list_sort_idem: "list_sort key reverse (list_sort key reverse xs) = list_sort key reverse xs"
proof (cases reverse)
  case False
  then show ?thesis using list_sort_sorted_id [OF list_sort_ascending, of key xs] by simp
next
  case True
  then show ?thesis using list_sort_descending_id [OF list_sort_descending, of key xs] by simp
qed

lemma none_not_desc: "ustr ''desc'' \<noteq> ustr ''none''" "ustr ''asc'' \<noteq> ustr ''none''"
  "ustr ''asc'' \<noteq> ustr ''desc''"
  by (simp_all add: ustr_def)

lemma reorder_pass_eq:
  "sort_date \<noteq> ustr ''none'' \<Longrightarrow>
    reorder_pass sort_date file = list_sort Date (sort_date = ustr ''desc'') file"
  by (simp add: reorder_pass_def)

text \<open>
  Claim C3. When the sort mode is not \<open>none\<close>, the file after the pass holds the records
  of the file before it, none lost and none twice; records with the same date keep their
  order (the sort is stable); the dates ascend, or descend when and only when the mode is
  \<open>desc\<close>; a message without a date has the empty text as its date, and the empty text is
  the lowest key. Running the pass a second time changes nothing, in any mode and so in
  the mode \<open>asc\<close>, and the ascending pass leaves a file that is sorted already as it is.
  The file is the list of the records of its lines, which are written from the records one
  line each, so that equal lists are equal files.
\<close>

theorem reorder_pass_spec:
  assumes "sort_date \<noteq> ustr ''none''"
  shows
  "mset (reorder_pass sort_date file) = mset file
   \<and> length (reorder_pass sort_date file) = length file
   \<and> filter (\<lambda>r. Date r = k) (reorder_pass sort_date file) = filter (\<lambda>r. Date r = k) file
   \<and> (if sort_date = ustr ''desc''
       then sorted (rev (map Date (reorder_pass sort_date file)))
       else sorted (map Date (reorder_pass sort_date file)))
   \<and> date_text NoDate = [] \<and> [] \<le> Date r
   \<and> reorder_pass sort_date (reorder_pass sort_date file) = reorder_pass sort_date file
   \<and> reorder_pass (ustr ''asc'') (reorder_pass (ustr ''asc'') file) = reorder_pass (ustr ''asc'') file
   \<and> (sorted (map Date file) \<longrightarrow> reorder_pass (ustr ''asc'') file = file)"
proof -
  let ?rev = "sort_date = ustr ''desc''"
  have eq: "reorder_pass sort_date file = list_sort Date ?rev file"
    using assms by (rule reorder_pass_eq)
  have perm: "mset (reorder_pass sort_date file) = mset file"
    unfolding eq by (rule mset_list_sort)
  then have len: "length (reorder_pass sort_date file) = length file"
    by (rule mset_eq_length)
  have stable: "filter (\<lambda>r. Date r = k) (reorder_pass sort_date file) = filter (\<lambda>r. Date r = k) file"
    unfolding eq by (rule list_sort_stable)
  have order: "if ?rev then sorted (rev (map Date (reorder_pass sort_date file)))
      else sorted (map Date (reorder_pass sort_date file))"
  proof (cases ?rev)
    case True
    then show ?thesis unfolding eq using list_sort_descending [of Date "file"] by simp
  next
    case False
    then show ?thesis unfolding eq using list_sort_ascending [of Date "file"] by simp
  qed
  have absent: "date_text NoDate = []"
    by (simp add: date_text_def)
  have lowest: "[] \<le> Date r"
    by simp
  have idem: "reorder_pass sort_date (reorder_pass sort_date file) = reorder_pass sort_date file"
    using assms by (simp add: reorder_pass_eq list_sort_idem)
  have idem_asc: "reorder_pass (ustr ''asc'') (reorder_pass (ustr ''asc'') file)
      = reorder_pass (ustr ''asc'') file"
    by (simp add: reorder_pass_eq none_not_desc list_sort_idem)
  have fixed: "sorted (map Date file) \<longrightarrow> reorder_pass (ustr ''asc'') file = file"
    by (simp add: reorder_pass_eq none_not_desc list_sort_sorted_id)
  from perm len stable order absent lowest idem idem_asc fixed show ?thesis
    by (intro conjI)
qed


text \<open>
  The theorem at a file of four records, two of them with the same date and one with no
  date, with the files that the descending and the ascending pass make of it.
\<close>

theorem reorder_pass_spec_witness:
  "ustr ''desc'' \<noteq> ustr ''none''
   \<and> reorder_pass (ustr ''desc'')
        [dated_record (ustr ''b'') (ustr ''1''), dated_record [] (ustr ''2''),
         dated_record (ustr ''b'') (ustr ''3''), dated_record (ustr ''a'') (ustr ''4'')]
       = [dated_record (ustr ''b'') (ustr ''1''), dated_record (ustr ''b'') (ustr ''3''),
          dated_record (ustr ''a'') (ustr ''4''), dated_record [] (ustr ''2'')]
   \<and> sorted (rev (map Date (reorder_pass (ustr ''desc'')
        [dated_record (ustr ''b'') (ustr ''1''), dated_record [] (ustr ''2''),
         dated_record (ustr ''b'') (ustr ''3''), dated_record (ustr ''a'') (ustr ''4'')])))
   \<and> reorder_pass (ustr ''asc'')
        [dated_record (ustr ''b'') (ustr ''1''), dated_record [] (ustr ''2''),
         dated_record (ustr ''b'') (ustr ''3''), dated_record (ustr ''a'') (ustr ''4'')]
       = [dated_record [] (ustr ''2''), dated_record (ustr ''a'') (ustr ''4''),
          dated_record (ustr ''b'') (ustr ''1''), dated_record (ustr ''b'') (ustr ''3'')]"
proof -
  let ?f = "[dated_record (ustr ''b'') (ustr ''1''), dated_record [] (ustr ''2''),
         dated_record (ustr ''b'') (ustr ''3''), dated_record (ustr ''a'') (ustr ''4'')]"
  have ne: "ustr ''desc'' \<noteq> ustr ''none''" by (simp add: ustr_def)
  have d: "reorder_pass (ustr ''desc'') ?f
       = [dated_record (ustr ''b'') (ustr ''1''), dated_record (ustr ''b'') (ustr ''3''),
          dated_record (ustr ''a'') (ustr ''4''), dated_record [] (ustr ''2'')]"
    by (simp add: reorder_pass_def ne list_sort_def dated_record_def ustr_def)
  have a: "reorder_pass (ustr ''asc'') ?f
       = [dated_record [] (ustr ''2''), dated_record (ustr ''a'') (ustr ''4''),
          dated_record (ustr ''b'') (ustr ''1''), dated_record (ustr ''b'') (ustr ''3'')]"
    by (simp add: reorder_pass_def list_sort_def dated_record_def ustr_def)
  from reorder_pass_spec [OF ne, of ?f "[]" "dated_record [] []"]
  have "sorted (rev (map Date (reorder_pass (ustr ''desc'') ?f)))" by simp
  with ne d a show ?thesis by (intro conjI)
qed

text \<open>
  Claim C9. The sort mode is any text: the default \<open>asc\<close>, or the text given on the command
  line as it is. Only the text \<open>none\<close> leaves the file alone. For every other text the pass
  runs and keeps the records; the order is descending if and only if the text is \<open>desc\<close>,
  and for every other text it is the order of the mode \<open>asc\<close>, as for \<open>Asc\<close>, \<open>NONE\<close>
  and \<open>descending\<close>.
\<close>

theorem sort_date_not_validated:
  "sort_date_arg None = ustr ''asc''
   \<and> sort_date_arg (Some s) = s
   \<and> reorder_pass (ustr ''none'') file = file
   \<and> (s \<noteq> ustr ''none'' \<longrightarrow>
        reorder_pass (sort_date_arg (Some s)) file = list_sort Date (s = ustr ''desc'') file
        \<and> mset (reorder_pass (sort_date_arg (Some s)) file) = mset file
        \<and> (s = ustr ''desc'' \<longrightarrow> sorted (rev (map Date (reorder_pass (sort_date_arg (Some s)) file))))
        \<and> (s \<noteq> ustr ''desc'' \<longrightarrow>
             sorted (map Date (reorder_pass (sort_date_arg (Some s)) file))
             \<and> reorder_pass (sort_date_arg (Some s)) file = reorder_pass (ustr ''asc'') file))
   \<and> reorder_pass (ustr ''Asc'') file = reorder_pass (ustr ''asc'') file
   \<and> reorder_pass (ustr ''NONE'') file = reorder_pass (ustr ''asc'') file
   \<and> reorder_pass (ustr ''descending'') file = reorder_pass (ustr ''asc'') file"
proof -
  have dflt: "sort_date_arg None = ustr ''asc''" and given: "sort_date_arg (Some s) = s"
    by (simp_all add: sort_date_arg_def)
  have none: "reorder_pass (ustr ''none'') file = file"
    by (simp add: reorder_pass_def)
  have asc: "reorder_pass (ustr ''asc'') file = list_sort Date False file"
    by (simp add: reorder_pass_eq none_not_desc)
  have other: "s \<noteq> ustr ''none'' \<longrightarrow>
        reorder_pass (sort_date_arg (Some s)) file = list_sort Date (s = ustr ''desc'') file
        \<and> mset (reorder_pass (sort_date_arg (Some s)) file) = mset file
        \<and> (s = ustr ''desc'' \<longrightarrow> sorted (rev (map Date (reorder_pass (sort_date_arg (Some s)) file))))
        \<and> (s \<noteq> ustr ''desc'' \<longrightarrow>
             sorted (map Date (reorder_pass (sort_date_arg (Some s)) file))
             \<and> reorder_pass (sort_date_arg (Some s)) file = reorder_pass (ustr ''asc'') file)"
  proof
    assume ne: "s \<noteq> ustr ''none''"
    have eq: "reorder_pass (sort_date_arg (Some s)) file = list_sort Date (s = ustr ''desc'') file"
      unfolding given using ne by (rule reorder_pass_eq)
    have perm: "mset (reorder_pass (sort_date_arg (Some s)) file) = mset file"
      unfolding eq by (rule mset_list_sort)
    have desc: "s = ustr ''desc'' \<longrightarrow> sorted (rev (map Date (reorder_pass (sort_date_arg (Some s)) file)))"
      unfolding eq using list_sort_descending [of Date "file"] by simp
    have nodesc: "s \<noteq> ustr ''desc'' \<longrightarrow>
             sorted (map Date (reorder_pass (sort_date_arg (Some s)) file))
             \<and> reorder_pass (sort_date_arg (Some s)) file = reorder_pass (ustr ''asc'') file"
      unfolding eq asc using list_sort_ascending [of Date "file"] by simp
    from eq perm desc nodesc
    show "reorder_pass (sort_date_arg (Some s)) file = list_sort Date (s = ustr ''desc'') file
        \<and> mset (reorder_pass (sort_date_arg (Some s)) file) = mset file
        \<and> (s = ustr ''desc'' \<longrightarrow> sorted (rev (map Date (reorder_pass (sort_date_arg (Some s)) file))))
        \<and> (s \<noteq> ustr ''desc'' \<longrightarrow>
             sorted (map Date (reorder_pass (sort_date_arg (Some s)) file))
             \<and> reorder_pass (sort_date_arg (Some s)) file = reorder_pass (ustr ''asc'') file)"
      by (intro conjI)
  qed
  have e1: "reorder_pass (ustr ''Asc'') file = reorder_pass (ustr ''asc'') file"
    unfolding asc by (simp add: reorder_pass_def ustr_def)
  have e2: "reorder_pass (ustr ''NONE'') file = reorder_pass (ustr ''asc'') file"
    unfolding asc by (simp add: reorder_pass_def ustr_def)
  have e3: "reorder_pass (ustr ''descending'') file = reorder_pass (ustr ''asc'') file"
    unfolding asc by (simp add: reorder_pass_def ustr_def)
  from dflt given none other e1 e2 e3 show ?thesis by (intro conjI)
qed

text \<open>
  The theorem at the mode \<open>Desc\<close>, which sorts ascending, and at the mode \<open>desc\<close>.
\<close>

theorem sort_date_not_validated_witness:
  "ustr ''Desc'' \<noteq> ustr ''none'' \<and> ustr ''Desc'' \<noteq> ustr ''desc''
   \<and> reorder_pass (sort_date_arg (Some (ustr ''Desc'')))
        [dated_record (ustr ''b'') (ustr ''1''), dated_record (ustr ''a'') (ustr ''2'')]
       = [dated_record (ustr ''a'') (ustr ''2''), dated_record (ustr ''b'') (ustr ''1'')]
   \<and> ustr ''desc'' \<noteq> ustr ''none''
   \<and> reorder_pass (sort_date_arg (Some (ustr ''desc'')))
        [dated_record (ustr ''a'') (ustr ''2''), dated_record (ustr ''b'') (ustr ''1'')]
       = [dated_record (ustr ''b'') (ustr ''1''), dated_record (ustr ''a'') (ustr ''2'')]"
proof -
  have n1: "ustr ''Desc'' \<noteq> ustr ''none''" and n2: "ustr ''Desc'' \<noteq> ustr ''desc''"
    and n3: "ustr ''desc'' \<noteq> ustr ''none''"
    by (simp_all add: ustr_def)
  have s1: "list_sort Date False
        [dated_record (ustr ''b'') (ustr ''1''), dated_record (ustr ''a'') (ustr ''2'')]
       = [dated_record (ustr ''a'') (ustr ''2''), dated_record (ustr ''b'') (ustr ''1'')]"
    by (simp add: list_sort_def dated_record_def ustr_def)
  have s2: "list_sort Date True
        [dated_record (ustr ''a'') (ustr ''2''), dated_record (ustr ''b'') (ustr ''1'')]
       = [dated_record (ustr ''b'') (ustr ''1''), dated_record (ustr ''a'') (ustr ''2'')]"
    by (simp add: list_sort_def dated_record_def ustr_def)
  have "reorder_pass (sort_date_arg (Some (ustr ''Desc'')))
        [dated_record (ustr ''b'') (ustr ''1''), dated_record (ustr ''a'') (ustr ''2'')]
       = [dated_record (ustr ''a'') (ustr ''2''), dated_record (ustr ''b'') (ustr ''1'')]"
  proof -
    from sort_date_not_validated [of "ustr ''Desc''"
        "[dated_record (ustr ''b'') (ustr ''1''), dated_record (ustr ''a'') (ustr ''2'')]"] n1
    have "reorder_pass (sort_date_arg (Some (ustr ''Desc'')))
        [dated_record (ustr ''b'') (ustr ''1''), dated_record (ustr ''a'') (ustr ''2'')]
       = list_sort Date (ustr ''Desc'' = ustr ''desc'')
        [dated_record (ustr ''b'') (ustr ''1''), dated_record (ustr ''a'') (ustr ''2'')]"
      by blast
    with n2 s1 show ?thesis by simp
  qed
  moreover have "reorder_pass (sort_date_arg (Some (ustr ''desc'')))
        [dated_record (ustr ''a'') (ustr ''2''), dated_record (ustr ''b'') (ustr ''1'')]
       = [dated_record (ustr ''b'') (ustr ''1''), dated_record (ustr ''a'') (ustr ''2'')]"
  proof -
    from sort_date_not_validated [of "ustr ''desc''"
        "[dated_record (ustr ''a'') (ustr ''2''), dated_record (ustr ''b'') (ustr ''1'')]"] n3
    have "reorder_pass (sort_date_arg (Some (ustr ''desc'')))
        [dated_record (ustr ''a'') (ustr ''2''), dated_record (ustr ''b'') (ustr ''1'')]
       = list_sort Date (ustr ''desc'' = ustr ''desc'')
        [dated_record (ustr ''a'') (ustr ''2''), dated_record (ustr ''b'') (ustr ''1'')]"
      by blast
    with s2 show ?thesis by simp
  qed
  ultimately show ?thesis using n1 n2 n3 by (intro conjI)
qed

section \<open>Facts about process_msg_file\<close>

lemma try_block_Inr:
  assumes "try_block extract filepath attachments_dir from_limit to_limit strip_tags fs = (Inr record, fs1)"
  shows "\<exists>msg msg_from msg_to msg_body names message_id.
      extract (path_text filepath) = Inr msg
      \<and> summarize_addresses (raw_sender msg) from_limit = Inr msg_from
      \<and> summarize_addresses (raw_to msg) to_limit = Inr msg_to
      \<and> message_body (raw_htmlBody msg) (raw_body msg) strip_tags = Inr msg_body
      \<and> save_attachments (path_stem filepath) attachments_dir (raw_attachments msg) fs = (Inr names, fs1)
      \<and> clean_value (message_id_attr msg) = Inr message_id
      \<and> record = \<lparr>Date = date_text (raw_date msg), From = msg_from, To = msg_to, Message = msg_body,
               Attachments = names, MessageID = message_id, SourceFile = path_text filepath\<rparr>"
  using assms unfolding try_block_def
  by (auto split: sum.splits prod.splits)

lemma process_msg_file_Some:
  assumes "process_msg_file extract filepath attachments_dir from_limit to_limit strip_tags fs
      = (Inr (Some record, err), fs1)"
  shows "try_block extract filepath attachments_dir from_limit to_limit strip_tags fs = (Inr record, fs1)
     \<and> err = None"
  using assms unfolding process_msg_file_def
  by (auto split: sum.splits prod.splits exn.splits)

lemma process_msg_file_record:
  assumes "process_msg_file extract filepath attachments_dir from_limit to_limit strip_tags fs
      = (Inr (Some record, err), fs1)"
    and "extract (path_text filepath) = Inr msg"
  shows "message_body (raw_htmlBody msg) (raw_body msg) strip_tags = Inr (Message record)
     \<and> clean_value (message_id_attr msg) = Inr (MessageID record)
     \<and> save_attachments (path_stem filepath) attachments_dir (raw_attachments msg) fs
          = (Inr (Attachments record), fs1)
     \<and> summarize_addresses (raw_sender msg) from_limit = Inr (From record)
     \<and> summarize_addresses (raw_to msg) to_limit = Inr (To record)
     \<and> Date record = date_text (raw_date msg)
     \<and> SourceFile record = path_text filepath"
proof -
  from assms(1) have "try_block extract filepath attachments_dir from_limit to_limit strip_tags fs
      = (Inr record, fs1)"
    by (simp add: process_msg_file_Some)
  from try_block_Inr [OF this] assms(2) show ?thesis by auto
qed

lemma strip_html_text_Nil: "strip_html_text [] = []"
  by (simp add: strip_html_text_def)

lemma message_body_html:
  "clean_value html = Inr h \<Longrightarrow> h \<noteq> [] \<Longrightarrow>
    message_body html plain strip_tags = Inr (if strip_tags then strip_html_text h else h)"
  by (simp add: message_body_def)

lemma message_body_plain:
  "clean_value html = Inr [] \<Longrightarrow> clean_value plain = Inr p \<Longrightarrow>
    message_body html plain strip_tags = Inr (if strip_tags then strip_html_text p else p)"
  by (simp add: message_body_def strip_html_text_Nil)


lemma process_bare_message:
  "clean_value (case message_id of None \<Rightarrow> PyStr (ustr ''UNKNOWN'') | Some v \<Rightarrow> v) = Inr mid \<Longrightarrow>
   message_body html plain strip_tags = Inr text \<Longrightarrow>
   process_msg_file (decodes_to (bare_message html plain message_id)) a_msg attachments_dir
      from_limit to_limit strip_tags fs
    = (Inr (Some \<lparr>Date = [], From = [], To = [], Message = text, Attachments = [], MessageID = mid,
              SourceFile = ustr ''mail/a.msg''\<rparr>, None), fs)"
  by (simp add: process_msg_file_def try_block_def decodes_to_def bare_message_def a_msg_def
      summarize_addresses_def date_text_def message_id_attr_def)

lemma unknown_text: "str_replace_nul (ustr ''UNKNOWN'') = ustr ''UNKNOWN''"
  by (simp add: ustr_def str_replace_nul_def)

text \<open>
  Claim C7, as the code has it. The body of the record is the cleaned HTML body when that
  text is not empty; when it is empty (the HTML body is absent, or empty, or holds only
  NUL bytes) it is the cleaned plain-text body, which is the empty text when the plain
  body is absent. The text that was chosen, HTML or plain, is stripped of its tags when
  and only when the strip-tags flag is set. The last conjunct says that this text is the
  field \<open>Message\<close> of every record the function returns.
\<close>

theorem message_body_selection:
  "(clean_value html = Inr h \<and> h \<noteq> [] \<longrightarrow>
      message_body html plain strip_tags = Inr (if strip_tags then strip_html_text h else h))
   \<and> (clean_value html = Inr [] \<and> clean_value plain = Inr p \<longrightarrow>
      message_body html plain strip_tags = Inr (if strip_tags then strip_html_text p else p))
   \<and> clean_value PyNone = Inr []
   \<and> message_body PyNone PyNone strip_tags = Inr []
   \<and> (process_msg_file extract filepath attachments_dir from_limit to_limit strip_tags fs
          = (Inr (Some record, err), fs1)
        \<and> extract (path_text filepath) = Inr msg \<longrightarrow>
      message_body (raw_htmlBody msg) (raw_body msg) strip_tags = Inr (Message record))"
proof -
  have html_case: "clean_value html = Inr h \<and> h \<noteq> [] \<longrightarrow>
      message_body html plain strip_tags = Inr (if strip_tags then strip_html_text h else h)"
    using message_body_html by blast
  have plain_case: "clean_value html = Inr [] \<and> clean_value plain = Inr p \<longrightarrow>
      message_body html plain strip_tags = Inr (if strip_tags then strip_html_text p else p)"
    using message_body_plain by blast
  have absent: "clean_value PyNone = Inr []" by simp
  have neither: "message_body PyNone PyNone strip_tags = Inr []"
    by (simp add: message_body_def)
  have in_record: "process_msg_file extract filepath attachments_dir from_limit to_limit strip_tags fs
          = (Inr (Some record, err), fs1)
        \<and> extract (path_text filepath) = Inr msg \<longrightarrow>
      message_body (raw_htmlBody msg) (raw_body msg) strip_tags = Inr (Message record)"
    using process_msg_file_record by blast
  from html_case plain_case absent neither in_record show ?thesis by (intro conjI)
qed

text \<open>
  The theorem at an HTML body \<^verbatim>\<open><p>hi</p>\<close> with the flag set, at an absent HTML body
  with the plain body \<^verbatim>\<open>a<b>c\<close> and the flag set, and at a record of the function.
\<close>

theorem message_body_selection_witness:
  "clean_value (PyBytes ''<p>hi</p>'') = Inr (ustr ''<p>hi</p>'') \<and> ustr ''<p>hi</p>'' \<noteq> []
   \<and> message_body (PyBytes ''<p>hi</p>'') (PyStr (ustr ''plain'')) True = Inr (ustr ''hi'')
   \<and> clean_value PyNone = Inr [] \<and> clean_value (PyStr (ustr ''a<b>c'')) = Inr (ustr ''a<b>c'')
   \<and> message_body PyNone (PyStr (ustr ''a<b>c'')) True = Inr (ustr ''ac'')
   \<and> process_msg_file (decodes_to (bare_message (PyBytes ''<p>hi</p>'') (PyStr (ustr ''plain'')) None))
        a_msg (ustr ''Attachments'') 3 3 False empty_filesystem
       = (Inr (Some \<lparr>Date = [], From = [], To = [], Message = ustr ''<p>hi</p>'', Attachments = [],
                 MessageID = ustr ''UNKNOWN'', SourceFile = ustr ''mail/a.msg''\<rparr>, None),
          empty_filesystem)
   \<and> decodes_to (bare_message (PyBytes ''<p>hi</p>'') (PyStr (ustr ''plain'')) None) (path_text a_msg)
       = Inr (bare_message (PyBytes ''<p>hi</p>'') (PyStr (ustr ''plain'')) None)"
proof -
  have c1: "clean_value (PyBytes ''<p>hi</p>'') = Inr (ustr ''<p>hi</p>'')"
    by (simp add: ustr_def str_replace_nul_def decode_cp1252_replace_def bytes_replace_nul_def
        cp1252_decode_byte_def)
  have n1: "ustr ''<p>hi</p>'' \<noteq> []" by (simp add: ustr_def)
  have s1: "strip_html_text (ustr ''<p>hi</p>'') = ustr ''hi''"
    by (simp add: strip_html_text_def ustr_def match_tag_def lt_sign_def gt_sign_def)
  have c2: "clean_value (PyStr (ustr ''a<b>c'')) = Inr (ustr ''a<b>c'')"
    by (simp add: ustr_def str_replace_nul_def)
  have s2: "strip_html_text (ustr ''a<b>c'') = ustr ''ac''"
    by (simp add: strip_html_text_def ustr_def match_tag_def lt_sign_def gt_sign_def)
  have c0: "clean_value PyNone = Inr []" by simp
  have m1: "message_body (PyBytes ''<p>hi</p>'') (PyStr (ustr ''plain'')) True = Inr (ustr ''hi'')"
    using message_body_selection [of "PyBytes ''<p>hi</p>''" "ustr ''<p>hi</p>''" "PyStr (ustr ''plain'')" True]
      c1 n1 s1 by simp
  have m2: "message_body PyNone (PyStr (ustr ''a<b>c'')) True = Inr (ustr ''ac'')"
    using message_body_selection [of PyNone "[]" "PyStr (ustr ''a<b>c'')" True "ustr ''a<b>c''"]
      c2 s2 by simp
  have m3: "message_body (PyBytes ''<p>hi</p>'') (PyStr (ustr ''plain'')) False = Inr (ustr ''<p>hi</p>'')"
    using message_body_html [OF c1 n1] by simp
  have p: "process_msg_file (decodes_to (bare_message (PyBytes ''<p>hi</p>'') (PyStr (ustr ''plain'')) None))
        a_msg (ustr ''Attachments'') 3 3 False empty_filesystem
       = (Inr (Some \<lparr>Date = [], From = [], To = [], Message = ustr ''<p>hi</p>'', Attachments = [],
                 MessageID = ustr ''UNKNOWN'', SourceFile = ustr ''mail/a.msg''\<rparr>, None),
          empty_filesystem)"
    by (rule process_bare_message) (simp_all add: unknown_text m3)
  have d: "decodes_to (bare_message (PyBytes ''<p>hi</p>'') (PyStr (ustr ''plain'')) None) (path_text a_msg)
       = Inr (bare_message (PyBytes ''<p>hi</p>'') (PyStr (ustr ''plain'')) None)"
    by (simp add: decodes_to_def)
  from c1 n1 m1 c0 c2 m2 p d show ?thesis by (intro conjI)
qed

text \<open>
  Claim C7 as stated fails for an HTML body that is present and cleans to the empty text:
  with the HTML body \<open>b"\x00"\<close> and the plain body \<open>hi\<close> the record's body is \<open>hi\<close>,
  not the HTML body.
\<close>

theorem html_body_of_nul_bytes_falls_back:
  "raw_htmlBody (bare_message (PyBytes [CHR 0x00]) (PyStr (ustr ''hi'')) None) = PyBytes [CHR 0x00]
   \<and> process_msg_file (decodes_to (bare_message (PyBytes [CHR 0x00]) (PyStr (ustr ''hi'')) None))
        a_msg (ustr ''Attachments'') 3 3 False empty_filesystem
       = (Inr (Some \<lparr>Date = [], From = [], To = [], Message = ustr ''hi'', Attachments = [],
                 MessageID = ustr ''UNKNOWN'', SourceFile = ustr ''mail/a.msg''\<rparr>, None),
          empty_filesystem)"
proof -
  have "message_body (PyBytes [CHR 0x00]) (PyStr (ustr ''hi'')) False = Inr (ustr ''hi'')"
    by (simp add: message_body_def ustr_def str_replace_nul_def decode_cp1252_replace_def
        bytes_replace_nul_def)
  then have "process_msg_file (decodes_to (bare_message (PyBytes [CHR 0x00]) (PyStr (ustr ''hi'')) None))
        a_msg (ustr ''Attachments'') 3 3 False empty_filesystem
       = (Inr (Some \<lparr>Date = [], From = [], To = [], Message = ustr ''hi'', Attachments = [],
                 MessageID = ustr ''UNKNOWN'', SourceFile = ustr ''mail/a.msg''\<rparr>, None),
          empty_filesystem)"
    by (intro process_bare_message) (simp_all add: unknown_text)
  then show ?thesis by (simp add: bare_message_def)
qed

lemma unknown_nonempty: "ustr ''UNKNOWN'' \<noteq> []"
  by (simp add: ustr_def)

text \<open>
  Claim C10, as the code has it. In every record the function returns: when the message
  has no attribute \<open>messageId\<close> the field \<open>MessageID\<close> is \<open>UNKNOWN\<close>; when the attribute is
  \<open>None\<close> the field is the empty text, which is not \<open>UNKNOWN\<close>; when the attribute has a
  value the field is the cleaned value. So the field is \<open>UNKNOWN\<close> only when the attribute
  is missing or its cleaned value is the text \<open>UNKNOWN\<close> itself.
\<close>

theorem message_id_cases:
  "process_msg_file extract filepath attachments_dir from_limit to_limit strip_tags fs
      = (Inr (Some record, err), fs1)
    \<and> extract (path_text filepath) = Inr msg \<longrightarrow>
     (raw_messageId msg = None \<longrightarrow> MessageID record = ustr ''UNKNOWN'')
     \<and> (raw_messageId msg = Some PyNone \<longrightarrow>
          MessageID record = [] \<and> MessageID record \<noteq> ustr ''UNKNOWN'')
     \<and> (raw_messageId msg = Some v \<longrightarrow> clean_value v = Inr (MessageID record))
     \<and> (MessageID record = ustr ''UNKNOWN'' \<longrightarrow>
          raw_messageId msg = None
          \<or> (\<exists>w. raw_messageId msg = Some w \<and> clean_value w = Inr (ustr ''UNKNOWN'')))"
proof
  assume h: "process_msg_file extract filepath attachments_dir from_limit to_limit strip_tags fs
      = (Inr (Some record, err), fs1)
    \<and> extract (path_text filepath) = Inr msg"
  then have c: "clean_value (message_id_attr msg) = Inr (MessageID record)"
    using process_msg_file_record by blast
  have missing: "raw_messageId msg = None \<longrightarrow> MessageID record = ustr ''UNKNOWN''"
    using c by (auto simp: message_id_attr_def unknown_text)
  have null: "raw_messageId msg = Some PyNone \<longrightarrow>
      MessageID record = [] \<and> MessageID record \<noteq> ustr ''UNKNOWN''"
    using c unknown_nonempty by (auto simp: message_id_attr_def)
  have present: "raw_messageId msg = Some v \<longrightarrow> clean_value v = Inr (MessageID record)"
    using c by (auto simp: message_id_attr_def)
  have only: "MessageID record = ustr ''UNKNOWN'' \<longrightarrow>
      raw_messageId msg = None
      \<or> (\<exists>w. raw_messageId msg = Some w \<and> clean_value w = Inr (ustr ''UNKNOWN''))"
    using c by (cases "raw_messageId msg") (auto simp: message_id_attr_def)
  from missing null present only
  show "(raw_messageId msg = None \<longrightarrow> MessageID record = ustr ''UNKNOWN'')
     \<and> (raw_messageId msg = Some PyNone \<longrightarrow>
          MessageID record = [] \<and> MessageID record \<noteq> ustr ''UNKNOWN'')
     \<and> (raw_messageId msg = Some v \<longrightarrow> clean_value v = Inr (MessageID record))
     \<and> (MessageID record = ustr ''UNKNOWN'' \<longrightarrow>
          raw_messageId msg = None
          \<or> (\<exists>w. raw_messageId msg = Some w \<and> clean_value w = Inr (ustr ''UNKNOWN'')))"
    by (intro conjI)
qed

text \<open>The theorem at a message whose attribute \<open>messageId\<close> is \<open>None\<close>.\<close>

theorem message_id_cases_witness:
  "process_msg_file (decodes_to (bare_message PyNone PyNone (Some PyNone)))
      a_msg (ustr ''Attachments'') 3 3 False empty_filesystem
     = (Inr (Some \<lparr>Date = [], From = [], To = [], Message = [], Attachments = [],
               MessageID = [], SourceFile = ustr ''mail/a.msg''\<rparr>, None), empty_filesystem)
   \<and> decodes_to (bare_message PyNone PyNone (Some PyNone)) (path_text a_msg)
       = Inr (bare_message PyNone PyNone (Some PyNone))
   \<and> raw_messageId (bare_message PyNone PyNone (Some PyNone)) = Some PyNone
   \<and> MessageID \<lparr>Date = [], From = [], To = [], Message = [], Attachments = [],
               MessageID = [], SourceFile = ustr ''mail/a.msg''\<rparr> \<noteq> ustr ''UNKNOWN''"
proof -
  let ?msg = "bare_message PyNone PyNone (Some PyNone)"
  let ?rec = "\<lparr>Date = [], From = [], To = [], Message = [], Attachments = [],
               MessageID = [], SourceFile = ustr ''mail/a.msg''\<rparr>"
  have p: "process_msg_file (decodes_to ?msg) a_msg (ustr ''Attachments'') 3 3 False empty_filesystem
     = (Inr (Some ?rec, None), empty_filesystem)"
    by (rule process_bare_message) (simp_all add: message_body_def)
  have d: "decodes_to ?msg (path_text a_msg) = Inr ?msg"
    by (simp add: decodes_to_def)
  have m: "raw_messageId ?msg = Some PyNone"
    by (simp add: bare_message_def)
  from message_id_cases [of "decodes_to ?msg" a_msg "ustr ''Attachments''" 3 3 False empty_filesystem
      ?rec None empty_filesystem ?msg PyNone] p d m
  have "MessageID ?rec \<noteq> ustr ''UNKNOWN''" by blast
  with p d m show ?thesis by (intro conjI)
qed

text \<open>
  Claim C10 as stated fails for a message whose attribute \<open>messageId\<close> exists and is the
  text \<open>UNKNOWN\<close>: the field is \<open>UNKNOWN\<close> although the attribute is there.
\<close>

theorem message_id_attribute_unknown:
  "raw_messageId (bare_message PyNone PyNone (Some (PyStr (ustr ''UNKNOWN''))))
     = Some (PyStr (ustr ''UNKNOWN''))
   \<and> process_msg_file (decodes_to (bare_message PyNone PyNone (Some (PyStr (ustr ''UNKNOWN'')))))
        a_msg (ustr ''Attachments'') 3 3 False empty_filesystem
       = (Inr (Some \<lparr>Date = [], From = [], To = [], Message = [], Attachments = [],
                 MessageID = ustr ''UNKNOWN'', SourceFile = ustr ''mail/a.msg''\<rparr>, None),
          empty_filesystem)"
proof -
  have "process_msg_file (decodes_to (bare_message PyNone PyNone (Some (PyStr (ustr ''UNKNOWN'')))))
        a_msg (ustr ''Attachments'') 3 3 False empty_filesystem
       = (Inr (Some \<lparr>Date = [], From = [], To = [], Message = [], Attachments = [],
                 MessageID = ustr ''UNKNOWN'', SourceFile = ustr ''mail/a.msg''\<rparr>, None),
          empty_filesystem)"
    by (rule process_bare_message) (simp_all add: message_body_def unknown_text)
  then show ?thesis by (simp add: bare_message_def)
qed

section \<open>Facts about the attachment loop\<close>

lemma chosen_filename_skip:
  "\<not> has_name att \<Longrightarrow> chosen_filename att = None \<or> chosen_filename att = Some []"
  by (auto simp: has_name_def lacks_name_def chosen_filename_def split: option.splits)

lemma chosen_filename_keep:
  "has_name att \<Longrightarrow> chosen_filename att = Some (preferred_name att) \<and> preferred_name att \<noteq> []"
  by (auto simp: has_name_def lacks_name_def chosen_filename_def preferred_name_def name_text_def
      split: option.splits)

lemma control_char_zero: "control_char 0"
  by (simp add: control_char_def)

lemma unique_name_nul_free: "0 \<notin> set stem \<Longrightarrow> 0 \<notin> set (unique_name stem (safe_filename f))"
  using safe_filename_chars [of 0 f] control_char_zero
  by (auto simp: unique_name_def ustr_def)

lemma write_all_Nil: "write_all dir [] fs = fs"
  by (simp add: write_all_def)

lemma write_all_Cons:
  "write_all dir ((n, c) # pairs) fs = write_all dir pairs (fs\<lparr>files := (files fs)((dir, n) \<mapsto> c)\<rparr>)"
  by (simp add: write_all_def)

lemma open_error_write_all: "open_error (write_all dir pairs fs) = open_error fs"
  by (induction pairs arbitrary: fs) (auto simp: write_all_Nil write_all_Cons)

lemma files_write_all:
  "files (write_all dir pairs fs) (d, n) =
    (if d = dir then (case map_of (rev pairs) n of Some c \<Rightarrow> Some c | None \<Rightarrow> files fs (d, n))
     else files fs (d, n))"
proof (induction pairs arbitrary: fs)
  case Nil
  then show ?case by (simp add: write_all_Nil)
next
  case (Cons p pairs)
  obtain m c where p: "p = (m, c)" by (cases p)
  show ?case
    unfolding p write_all_Cons Cons.IH
    by (auto simp: map_of_append split: option.splits)
qed

lemma materialized_Cons:
  "materialized stem (att # atts) =
    (if has_name att
     then (unique_name stem (safe_filename (preferred_name att)), att_data att) # materialized stem atts
     else materialized stem atts)"
  by (simp add: materialized_def)

lemma write_file_ok:
  "0 \<notin> set dir \<Longrightarrow> 0 \<notin> set n \<Longrightarrow> open_error fs (dir, n) = None \<Longrightarrow>
    write_file fs (dir, n) c = Inr (fs\<lparr>files := (files fs)((dir, n) \<mapsto> c)\<rparr>)"
  by (simp add: write_file_def)

lemma save_attachments_ok:
  assumes "0 \<notin> set stem" and "0 \<notin> set dir"
    and "\<forall>n \<in> set (map fst (materialized stem atts)). open_error fs (dir, n) = None"
  shows "save_attachments stem dir atts fs
      = (Inr (map fst (materialized stem atts)), write_all dir (materialized stem atts) fs)"
  using assms(3)
proof (induction atts arbitrary: fs)
  case Nil
  then show ?case by (simp add: materialized_def write_all_Nil)
next
  case (Cons att atts)
  show ?case
  proof (cases "has_name att")
    case False
    with Cons.prems have "\<forall>n \<in> set (map fst (materialized stem atts)). open_error fs (dir, n) = None"
      by (simp add: materialized_Cons)
    then have "save_attachments stem dir atts fs
        = (Inr (map fst (materialized stem atts)), write_all dir (materialized stem atts) fs)"
      by (rule Cons.IH)
    with False chosen_filename_skip [OF False] show ?thesis
      by (auto simp: materialized_Cons)
  next
    case True
    let ?n = "unique_name stem (safe_filename (preferred_name att))"
    let ?fs = "fs\<lparr>files := (files fs)((dir, ?n) \<mapsto> att_data att)\<rparr>"
    from chosen_filename_keep [OF True]
    have ch: "chosen_filename att = Some (preferred_name att)" and ne: "preferred_name att \<noteq> []"
      by simp_all
    have nul: "0 \<notin> set ?n" using assms(1) by (rule unique_name_nul_free)
    from Cons.prems True have op: "open_error fs (dir, ?n) = None"
      by (simp add: materialized_Cons)
    have w: "write_file fs (dir, ?n) (att_data att) = Inr ?fs"
      using assms(2) nul op by (rule write_file_ok)
    have cl: "clean_value (PyStr ?n) = Inr ?n"
      using nul by (simp add: str_replace_nul_id)
    from Cons.prems True
    have "\<forall>n \<in> set (map fst (materialized stem atts)). open_error ?fs (dir, n) = None"
      by (simp add: materialized_Cons)
    then have ih: "save_attachments stem dir atts ?fs
        = (Inr (map fst (materialized stem atts)), write_all dir (materialized stem atts) ?fs)"
      by (rule Cons.IH)
    have "save_attachments stem dir (att # atts) fs
        = (Inr (?n # map fst (materialized stem atts)), write_all dir (materialized stem atts) ?fs)"
      using ch ne w cl ih by (simp add: Let_def del: clean_value.simps)
    then show ?thesis using True by (simp add: materialized_Cons write_all_Cons)
  qed
qed


lemma save_attachments_skip:
  "\<not> has_name att \<Longrightarrow>
    save_attachments stem dir (att # atts) fs = save_attachments stem dir atts fs"
  using chosen_filename_skip [of att] by auto

lemma map_of_last_writer:
  "n \<notin> fst ` set post \<Longrightarrow> map_of (rev (pre @ (n, c) # post)) n = Some c"
proof -
  assume "n \<notin> fst ` set post"
  then have "map_of (rev post) n = None" by (simp add: map_of_eq_None_iff)
  then show ?thesis by (simp add: map_of_append map_add_def)
qed

lemma materialized_names:
  "materialized stem atts
    = map (\<lambda>att. (stem @ 0x5F # safe_filename (preferred_name att), att_data att)) (filter has_name atts)"
  by (simp add: materialized_def unique_name_def underscore_text)

lemma has_name_iff:
  "has_name att \<longleftrightarrow>
    (\<exists>t. t \<noteq> [] \<and> (att_longFilename att = Some t \<or> att_shortFilename att = Some t))"
  by (auto simp: has_name_def lacks_name_def split: option.splits)

lemma preferred_name_long:
  "att_longFilename att = Some l \<Longrightarrow> l \<noteq> [] \<Longrightarrow> preferred_name att = l"
  by (simp add: preferred_name_def lacks_name_def name_text_def)

lemma preferred_name_short:
  "att_longFilename att = None \<or> att_longFilename att = Some [] \<Longrightarrow>
    att_shortFilename att = Some sh \<Longrightarrow> preferred_name att = sh"
  by (auto simp: preferred_name_def lacks_name_def name_text_def)

text \<open>
  Claim C6. Where the stem and the directory hold no NUL and every file to be saved can be
  opened: the loop returns, for the kept entries in the order of the attachments, the
  names made of the stem of the source file, the character \<open>_\<close> (U+005F) and the
  sanitized chosen name; an entry is kept when its long or its short name is a text that
  is not empty, and the chosen name is the long name when that is such a text and the
  short name otherwise; an entry that lacks both names is skipped and nothing else happens
  for it; after the loop a file of the directory holds the payload of the last kept entry
  of its name, whether or not the file was there before, and every other file is as it
  was.
\<close>

theorem save_attachments_spec:
  assumes "0 \<notin> set stem" and "0 \<notin> set dir"
    and "\<forall>n \<in> set (map fst (materialized stem atts)). open_error fs (dir, n) = None"
  shows
  "fst (save_attachments stem dir atts fs)
     = Inr (map (\<lambda>att. stem @ 0x5F # safe_filename (preferred_name att)) (filter has_name atts))
   \<and> materialized stem atts
       = map (\<lambda>att. (stem @ 0x5F # safe_filename (preferred_name att), att_data att))
           (filter has_name atts)
   \<and> unique_name stem f = stem @ 0x5F # f
   \<and> (has_name att \<longleftrightarrow>
        (\<exists>t. t \<noteq> [] \<and> (att_longFilename att = Some t \<or> att_shortFilename att = Some t)))
   \<and> (att_longFilename att = Some l \<and> l \<noteq> [] \<longrightarrow> preferred_name att = l)
   \<and> ((att_longFilename att = None \<or> att_longFilename att = Some [])
        \<and> att_shortFilename att = Some sh \<longrightarrow> preferred_name att = sh)
   \<and> fst (save_attachments stem dir atts fs) = Inr (map fst (materialized stem atts))
   \<and> map fst (materialized stem atts)
       = map (\<lambda>att. unique_name stem (safe_filename (preferred_name att))) (filter has_name atts)
   \<and> files (snd (save_attachments stem dir atts fs)) (d, n) =
       (if d = dir
        then (case map_of (rev (materialized stem atts)) n of
                Some c \<Rightarrow> Some c
              | None \<Rightarrow> files fs (d, n))
        else files fs (d, n))
   \<and> (materialized stem atts = pre @ (n, c) # post \<and> n \<notin> fst ` set post \<longrightarrow>
        files (snd (save_attachments stem dir atts fs)) (dir, n) = Some c)
   \<and> (\<not> has_name att \<longrightarrow>
        save_attachments stem dir (att # atts) fs = save_attachments stem dir atts fs)"
proof -
  have eq: "save_attachments stem dir atts fs
      = (Inr (map fst (materialized stem atts)), write_all dir (materialized stem atts) fs)"
    using assms by (rule save_attachments_ok)
  have names: "fst (save_attachments stem dir atts fs) = Inr (map fst (materialized stem atts))"
    unfolding eq by simp
  have explicit: "fst (save_attachments stem dir atts fs)
     = Inr (map (\<lambda>att. stem @ 0x5F # safe_filename (preferred_name att)) (filter has_name atts))"
    unfolding names materialized_names by (simp add: comp_def)
  have pairs: "materialized stem atts
       = map (\<lambda>att. (stem @ 0x5F # safe_filename (preferred_name att), att_data att))
           (filter has_name atts)"
    by (rule materialized_names)
  have name: "unique_name stem f = stem @ 0x5F # f"
    by (simp add: unique_name_def underscore_text)
  have kept: "has_name att \<longleftrightarrow>
        (\<exists>t. t \<noteq> [] \<and> (att_longFilename att = Some t \<or> att_shortFilename att = Some t))"
    by (rule has_name_iff)
  have long: "att_longFilename att = Some l \<and> l \<noteq> [] \<longrightarrow> preferred_name att = l"
    by (simp add: preferred_name_long)
  have short: "(att_longFilename att = None \<or> att_longFilename att = Some [])
        \<and> att_shortFilename att = Some sh \<longrightarrow> preferred_name att = sh"
    using preferred_name_short [of att sh] by blast
  have order: "map fst (materialized stem atts)
       = map (\<lambda>att. unique_name stem (safe_filename (preferred_name att))) (filter has_name atts)"
    by (simp add: materialized_def comp_def)
  have content: "files (snd (save_attachments stem dir atts fs)) (d, n) =
       (if d = dir
        then (case map_of (rev (materialized stem atts)) n of
                Some c \<Rightarrow> Some c
              | None \<Rightarrow> files fs (d, n))
        else files fs (d, n))"
    unfolding eq snd_conv by (rule files_write_all)
  have last_wins: "materialized stem atts = pre @ (n, c) # post \<and> n \<notin> fst ` set post \<longrightarrow>
        files (snd (save_attachments stem dir atts fs)) (dir, n) = Some c"
  proof
    assume h: "materialized stem atts = pre @ (n, c) # post \<and> n \<notin> fst ` set post"
    then have "map_of (rev (materialized stem atts)) n = Some c"
      using map_of_last_writer [of n post pre c] by simp
    then show "files (snd (save_attachments stem dir atts fs)) (dir, n) = Some c"
      unfolding eq snd_conv files_write_all by simp
  qed
  have skip: "\<not> has_name att \<longrightarrow>
        save_attachments stem dir (att # atts) fs = save_attachments stem dir atts fs"
    using save_attachments_skip by blast
  show ?thesis
    apply (rule conjI [OF explicit])
    apply (rule conjI [OF pairs])
    apply (rule conjI [OF name])
    apply (rule conjI [OF kept])
    apply (rule conjI [OF long])
    apply (rule conjI [OF short])
    apply (rule conjI [OF names])
    apply (rule conjI [OF order])
    apply (rule conjI [OF content])
    apply (rule conjI [OF last_wins])
    apply (rule skip)
    done
qed

text \<open>
  The theorem at three attachments of the file \<open>a.msg\<close>: two whose sanitized names are
  the same, and between them one without a name. Both names are returned and the file
  holds the payload of the later one. And the theorem at one attachment of the file
  \<open>report.msg\<close>, which has both names: the long name is taken.
\<close>

theorem save_attachments_spec_witness:
  "0 \<notin> set (ustr ''a'') \<and> 0 \<notin> set (ustr ''Attachments'')
   \<and> open_error empty_filesystem (ustr ''Attachments'', ustr ''a_x_y.txt'') = None
   \<and> fst (save_attachments (ustr ''a'') (ustr ''Attachments'')
        [\<lparr>att_longFilename = Some (ustr ''x:y.txt''), att_shortFilename = None, att_data = ''one''\<rparr>,
         \<lparr>att_longFilename = None, att_shortFilename = Some [], att_data = ''none''\<rparr>,
         \<lparr>att_longFilename = Some [], att_shortFilename = Some (ustr ''x?y.txt''), att_data = ''two''\<rparr>]
        empty_filesystem)
      = Inr [ustr ''a_x_y.txt'', ustr ''a_x_y.txt'']
   \<and> files (snd (save_attachments (ustr ''a'') (ustr ''Attachments'')
        [\<lparr>att_longFilename = Some (ustr ''x:y.txt''), att_shortFilename = None, att_data = ''one''\<rparr>,
         \<lparr>att_longFilename = None, att_shortFilename = Some [], att_data = ''none''\<rparr>,
         \<lparr>att_longFilename = Some [], att_shortFilename = Some (ustr ''x?y.txt''), att_data = ''two''\<rparr>]
        empty_filesystem)) (ustr ''Attachments'', ustr ''a_x_y.txt'')
      = Some ''two''
   \<and> 0 \<notin> set (ustr ''report'')
   \<and> open_error empty_filesystem (ustr ''Attachments'', ustr ''report_b_c.pdf'') = None
   \<and> fst (save_attachments (ustr ''report'') (ustr ''Attachments'')
        [\<lparr>att_longFilename = Some (ustr ''b/c.pdf''), att_shortFilename = Some (ustr ''B~1.PDF''),
          att_data = ''pdf''\<rparr>]
        empty_filesystem)
      = Inr [ustr ''report_b_c.pdf'']"
proof -
  let ?atts = "[\<lparr>att_longFilename = Some (ustr ''x:y.txt''), att_shortFilename = None, att_data = ''one''\<rparr>,
         \<lparr>att_longFilename = None, att_shortFilename = Some [], att_data = ''none''\<rparr>,
         \<lparr>att_longFilename = Some [], att_shortFilename = Some (ustr ''x?y.txt''), att_data = ''two''\<rparr>]"
  let ?report = "[\<lparr>att_longFilename = Some (ustr ''b/c.pdf''), att_shortFilename = Some (ustr ''B~1.PDF''),
          att_data = ''pdf''\<rparr>]"
  have s1: "safe_filename (ustr ''x:y.txt'') = ustr ''x_y.txt''"
    and s2: "safe_filename (ustr ''x?y.txt'') = ustr ''x_y.txt''"
    and s3: "safe_filename (ustr ''b/c.pdf'') = ustr ''b_c.pdf''"
    by (simp_all add: safe_filename_eq ustr_def control_char_def forbidden_char_def forbidden_chars_def)
  have u: "unique_name (ustr ''a'') (ustr ''x_y.txt'') = ustr ''a_x_y.txt''"
    and u3: "unique_name (ustr ''report'') (ustr ''b_c.pdf'') = ustr ''report_b_c.pdf''"
    by (simp_all add: unique_name_def ustr_def)
  have n1: "ustr ''x:y.txt'' \<noteq> []" and n2: "ustr ''x?y.txt'' \<noteq> []" and n3: "ustr ''b/c.pdf'' \<noteq> []"
    by (simp_all add: ustr_def)
  have m: "materialized (ustr ''a'') ?atts = [(ustr ''a_x_y.txt'', ''one''), (ustr ''a_x_y.txt'', ''two'')]"
    by (simp add: materialized_def has_name_def lacks_name_def preferred_name_def name_text_def
        n1 n2 s1 s2 u)
  have m3: "materialized (ustr ''report'') ?report = [(ustr ''report_b_c.pdf'', ''pdf'')]"
    by (simp add: materialized_def has_name_def lacks_name_def preferred_name_def name_text_def
        n3 s3 u3)
  have z1: "0 \<notin> set (ustr ''a'')" and z2: "0 \<notin> set (ustr ''Attachments'')"
    and z3: "0 \<notin> set (ustr ''report'')"
    by (simp_all add: ustr_def)
  have o: "open_error empty_filesystem (ustr ''Attachments'', ustr ''a_x_y.txt'') = None"
    and o3: "open_error empty_filesystem (ustr ''Attachments'', ustr ''report_b_c.pdf'') = None"
    by (simp_all add: empty_filesystem_def)
  have all: "\<forall>n \<in> set (map fst (materialized (ustr ''a'') ?atts)).
      open_error empty_filesystem (ustr ''Attachments'', n) = None"
    by (simp add: empty_filesystem_def)
  have all3: "\<forall>n \<in> set (map fst (materialized (ustr ''report'') ?report)).
      open_error empty_filesystem (ustr ''Attachments'', n) = None"
    by (simp add: empty_filesystem_def)
  note t = save_attachments_spec [OF z1 z2 all, where d = "ustr ''Attachments''"
      and n = "ustr ''a_x_y.txt''" and pre = "[(ustr ''a_x_y.txt'', ''one'')]" and c = "''two''"
      and post = "[]" and f = "[]" and l = "[]" and sh = "[]"
      and att = "\<lparr>att_longFilename = None, att_shortFilename = Some [], att_data = ''none''\<rparr>"]
  note t3 = save_attachments_spec [OF z3 z2 all3, where d = "ustr ''Attachments''"
      and n = "ustr ''report_b_c.pdf''" and pre = "[]" and c = "''pdf''"
      and post = "[]" and f = "[]" and l = "[]" and sh = "[]"
      and att = "\<lparr>att_longFilename = None, att_shortFilename = Some [], att_data = ''none''\<rparr>"]
  have pairs: "map (\<lambda>att. (ustr ''a'' @ 0x5F # safe_filename (preferred_name att), att_data att))
        (filter has_name ?atts) = [(ustr ''a_x_y.txt'', ''one''), (ustr ''a_x_y.txt'', ''two'')]"
    using t [THEN conjunct2, THEN conjunct1] unfolding m by simp
  then have "map fst (map (\<lambda>att. (ustr ''a'' @ 0x5F # safe_filename (preferred_name att), att_data att))
        (filter has_name ?atts)) = map fst [(ustr ''a_x_y.txt'', ''one''), (ustr ''a_x_y.txt'', ''two'')]"
    by (rule arg_cong)
  then have ns: "map (\<lambda>att. ustr ''a'' @ 0x5F # safe_filename (preferred_name att)) (filter has_name ?atts)
      = [ustr ''a_x_y.txt'', ustr ''a_x_y.txt'']"
    by (simp add: comp_def)
  have names: "fst (save_attachments (ustr ''a'') (ustr ''Attachments'') ?atts empty_filesystem)
      = Inr [ustr ''a_x_y.txt'', ustr ''a_x_y.txt'']"
    using t [THEN conjunct1] unfolding ns .
  have content: "files (snd (save_attachments (ustr ''a'') (ustr ''Attachments'') ?atts empty_filesystem))
        (ustr ''Attachments'', ustr ''a_x_y.txt'') = Some ''two''"
    using t [THEN conjunct2, THEN conjunct2, THEN conjunct2, THEN conjunct2, THEN conjunct2,
        THEN conjunct2, THEN conjunct2, THEN conjunct2, THEN conjunct2, THEN conjunct1] m
    by simp
  have names3: "fst (save_attachments (ustr ''report'') (ustr ''Attachments'') ?report empty_filesystem)
      = Inr [ustr ''report_b_c.pdf'']"
    using t3 [THEN conjunct2, THEN conjunct2, THEN conjunct2, THEN conjunct2, THEN conjunct2,
        THEN conjunct2, THEN conjunct1]
    unfolding m3 by simp
  from z1 z2 o names content z3 o3 names3 show ?thesis by (intro conjI)
qed

section \<open>Facts about the batch\<close>




















lemma encodable_append: "encodable (a @ b) = (encodable a \<and> encodable b)"
  by (simp add: encodable_def)

lemma encodable_ustr: "encodable (ustr s)"
proof -
  have "\<not> surrogate (of_char c)" for c :: char
  proof -
    have "of_char c < (256::nat)" by simp
    then show ?thesis unfolding surrogate_def by linarith
  qed
  then show ?thesis by (simp add: encodable_def ustr_def list_ex_iff)
qed

lemma encodable_str_of_nat: "encodable (str_of_nat n)"
proof -
  have "list_all (\<lambda>d. 0x30 \<le> d \<and> d \<le> 0x39) (str_of_nat n)"
    using str_of_nat_value [of n] by (rule conjunct2)
  then have "\<forall>d \<in> set (str_of_nat n). \<not> surrogate d"
    by (auto simp: list_all_iff surrogate_def)
  then show ?thesis by (simp add: encodable_def list_ex_iff)
qed

lemma encodable_progress_line:
  "encodable (progress_line i total_count p) = encodable (path_text p)"
  by (simp add: progress_line_def encodable_append encodable_ustr encodable_str_of_nat)






lemma process_bare:
  "decoder (path_text p) = Inr (bare_message html plain message_id) \<Longrightarrow>
   clean_value (case message_id of None \<Rightarrow> PyStr (ustr ''UNKNOWN'') | Some v \<Rightarrow> v) = Inr mid \<Longrightarrow>
   message_body html plain strip_tags = Inr body_text \<Longrightarrow>
   process_msg_file decoder p attachments_dir from_limit to_limit strip_tags fs
    = (Inr (Some \<lparr>Date = [], From = [], To = [], Message = body_text, Attachments = [], MessageID = mid,
              SourceFile = path_text p\<rparr>, None), fs)"
  by (simp add: process_msg_file_def try_block_def bare_message_def
      summarize_addresses_def date_text_def message_id_attr_def)

lemma hi_body: "message_body PyNone (PyStr (ustr ''hi'')) False = Inr (ustr ''hi'')"
  by (simp add: message_body_def ustr_def str_replace_nul_def)

lemma process_hi:
  "decoder (path_text p) = Inr (bare_message PyNone (PyStr (ustr ''hi'')) None) \<Longrightarrow>
   process_msg_file decoder p (ustr ''Attachments'') 3 3 False empty_filesystem
    = (Inr (Some \<lparr>Date = [], From = [], To = [], Message = ustr ''hi'', Attachments = [],
                   MessageID = ustr ''UNKNOWN'', SourceFile = path_text p\<rparr>, None), empty_filesystem)"
  using process_bare [where decoder = decoder and p = p and html = PyNone
      and plain = "PyStr (ustr ''hi'')" and message_id = None and mid = "ustr ''UNKNOWN''"
      and strip_tags = False and body_text = "ustr ''hi''" and attachments_dir = "ustr ''Attachments''"
      and from_limit = 3 and to_limit = 3 and fs = empty_filesystem] hi_body
  by (simp add: unknown_text)

lemma writable_hi:
  "writable \<lparr>Date = [], From = [], To = [], Message = ustr ''hi'', Attachments = [],
             MessageID = ustr ''UNKNOWN'', SourceFile = t\<rparr> = encodable t"
  by (simp add: writable_def encodable_ustr) (simp add: encodable_def)

lemma path_texts:
  "path_text a_msg = ustr ''mail/a.msg''" "path_text b_msg = ustr ''mail/b.msg''"
  "path_text c_msg = ustr ''mail/c.msg''"
  by (simp_all add: a_msg_def b_msg_def c_msg_def)


lemma surrogate_path: "\<not> encodable (path_text s_msg)"
  by (simp add: s_msg_def encodable_append) (simp add: encodable_def surrogate_def)




text \<open>
  A file whose name is not UTF-8 has a path with a surrogate. Its record cannot be written
  and its progress line cannot be printed on a console that encodes in UTF-8: the loop ends
  with \<open>UnicodeEncodeError\<close> at the second result, on either console, and the record of
  the third file is not written.
\<close>

lemma surrogate_path_ends_batch:
  "fst (main_loop encodable (decodes_to (bare_message PyNone (PyStr (ustr ''hi'')) None))
        (ustr ''Attachments'') 3 3 False [a_msg, s_msg, c_msg] empty_filesystem)
     = (Some unicode_encode_error,
        [\<lparr>Date = [], From = [], To = [], Message = ustr ''hi'', Attachments = [],
           MessageID = ustr ''UNKNOWN'', SourceFile = ustr ''mail/a.msg''\<rparr>],
        [])
   \<and> fst (main_loop (\<lambda>line. True) (decodes_to (bare_message PyNone (PyStr (ustr ''hi'')) None))
        (ustr ''Attachments'') 3 3 False [a_msg, s_msg, c_msg] empty_filesystem)
     = (Some unicode_encode_error,
        [\<lparr>Date = [], From = [], To = [], Message = ustr ''hi'', Attachments = [],
           MessageID = ustr ''UNKNOWN'', SourceFile = ustr ''mail/a.msg''\<rparr>],
        [])"
proof -
  let ?m = "bare_message PyNone (PyStr (ustr ''hi'')) None"
  let ?D = "ustr ''Attachments''"
  let ?ra = "\<lparr>Date = [], From = [], To = [], Message = ustr ''hi'', Attachments = [],
             MessageID = ustr ''UNKNOWN'', SourceFile = ustr ''mail/a.msg''\<rparr>"
  have d: "decodes_to ?m (path_text p) = Inr ?m" for p :: source_path
    by (simp add: decodes_to_def)
  note p = process_hi [where decoder = "decodes_to ?m", OF d]
  have line: "encodable (progress_line i n a_msg)" for i n
    by (simp add: encodable_progress_line path_texts encodable_ustr)
  have no_line: "\<not> encodable (progress_line i n s_msg)" for i n
    by (simp add: encodable_progress_line surrogate_path)
  have wa: "writable ?ra" by (simp add: writable_hi encodable_ustr)
  have ws: "\<not> writable \<lparr>Date = [], From = [], To = [], Message = ustr ''hi'', Attachments = [],
             MessageID = ustr ''UNKNOWN'', SourceFile = path_text s_msg\<rparr>"
    by (simp add: writable_hi surrogate_path)
  have strict: "fst (main_loop encodable (decodes_to ?m) ?D 3 3 False [a_msg, s_msg, c_msg] empty_filesystem)
      = (Some unicode_encode_error, [?ra], [])"
    using line no_line wa by (simp add: main_loop_def p path_texts)
  have lenient: "fst (main_loop (\<lambda>line. True) (decodes_to ?m) ?D 3 3 False [a_msg, s_msg, c_msg] empty_filesystem)
      = (Some unicode_encode_error, [?ra], [])"
    using wa ws by (simp add: main_loop_def p path_texts)
  from strict lenient show ?thesis by (rule conjI)
qed

end
